theory Spec2Isabelle
  imports Main "HOL-Library.Word" "HOL-Library.Signed_Division"
begin

unbundle bit_operations_syntax

section \<open>Data model\<close>

text \<open>
  The Go package \<^verbatim>\<open>cripta\<close> works on byte slices.  A slice is modelled by the list of
  its elements and \<^verbatim>\<open>uint8\<close> by \<^typ>\<open>8 word\<close>, whose arithmetic wraps as Go's does.
  Lengths, round counts, loop indices and the block sizes of the ciphers are natural
  numbers; the block size of a cipher context, which \<^verbatim>\<open>NewCipherContext\<close> stores as it
  is given and the padding and the modes compute with, is an \<^typ>\<open>int\<close>, with Go's
  truncating \<^verbatim>\<open>/\<close> and \<^verbatim>\<open>%\<close> as \<open>sdiv\<close> and \<open>smod\<close>.  Every
  \<^verbatim>\<open>error\<close> the package returns is a value of the datatype \<open>error\<close>; a run-time panic of
  the Go program (index or slice bounds out of range, integer division by zero, a negative
  size given to \<^verbatim>\<open>make\<close>) is the value \<open>Panic\<close>.
  A function of the source that returns \<^verbatim>\<open>(value, error)\<close> returns \<open>error + value\<close> here,
  with \<open>Inl\<close> for the error.  Where the source tests an argument against \<^verbatim>\<open>nil\<close>, the
  argument is an \<open>option\<close> and \<open>None\<close> is the nil slice.
\<close>

type_synonym byte = "8 word"
type_synonym bytes = "byte list"

datatype panic =
    IndexOutOfRange | DivideByZero | NegativeShift | NegativeLength
  | SliceBoundsOutOfRange | NegativeChanSize

datatype error =
    Panic panic
  | ZeroNoInverse
  | InverseNotFound byte
  | PositionOutOfBounds int
  | SourceByteOutOfBounds nat
  | BadShiftData
  | BadDESKeyLength
  | PC1Failed error
  | PC2Failed nat error
  | ShiftFailed nat error
  | NilKeySchedule
  | NilRoundFunction
  | OddBlockSize
  | NilKey
  | EmptyKey
  | KeyScheduleFailed error
  | InsufficientRoundKeys nat nat
  | NilBlock
  | BadBlockSize nat nat
  | KeyNotSet
  | EmptyBlock
  | OddBlock
  | EmptyXor
  | SplitFailed error
  | RoundFunctionFailed nat error
  | XorFailed nat error
  | CombineFailed error
  | NilCipher
  | SetKeyFailed error
  | NilData
  | NilPlaintext
  | NilCiphertext
  | RandomSourceFailed
  | RandomFailed error
  | UnsupportedPaddingMode
  | UnsupportedCipherMode
  | PaddingFailed error
  | ModeFailed error
  | BlockFailed nat error
  | BadRijndaelBlockSize
  | BadRijndaelKeySize
  | BadRoundKeyLength nat

text \<open>
  \<^verbatim>\<open>fmt.Errorf("...: %w", err)\<close> wraps an error that was returned; a panic is not a
  returned error and passes through every wrapper unchanged.
\<close>

fun wrap :: "(error \<Rightarrow> error) \<Rightarrow> error \<Rightarrow> error" where
  "wrap f (Panic p) = Panic p"
| "wrap f e = f e"

section \<open>GF(2^8) service (gf28\_service.go)\<close>

definition Add :: "byte \<Rightarrow> byte \<Rightarrow> byte" where
  "Add a b = a XOR b"

text \<open>
  The body of the loop \<^verbatim>\<open>for i := 0; i < 8; i++\<close> of \<^verbatim>\<open>Multiply\<close> and of
  \<^verbatim>\<open>MultiplySimple\<close>; the first argument counts the iterations that remain.
\<close>

fun MultiplyLoop :: "nat \<Rightarrow> byte \<Rightarrow> byte \<Rightarrow> byte \<Rightarrow> byte \<Rightarrow> byte" where
  "MultiplyLoop 0 a b modulus result = result"
| "MultiplyLoop (Suc n) a b modulus result =
     (let result' = (if b AND 1 \<noteq> 0 then result XOR a else result);
          carry = (a AND 0x80 \<noteq> 0);
          a1 = push_bit 1 a;
          a2 = (if carry then a1 XOR modulus else a1)
      in MultiplyLoop n a2 (drop_bit 1 b) modulus result')"

definition gfmul :: "byte \<Rightarrow> byte \<Rightarrow> byte \<Rightarrow> byte" where
  "gfmul modulus a b = MultiplyLoop 8 a b modulus 0"

definition Multiply :: "byte \<Rightarrow> byte \<Rightarrow> byte \<Rightarrow> error + byte" where
  "Multiply a b modulus = Inr (gfmul modulus a b)"

text \<open>\<^verbatim>\<open>Inverse\<close>: the search \<^verbatim>\<open>for i := 1; i < 256; i++\<close>, which ignores the error of
  \<^verbatim>\<open>Multiply\<close> (a failed product would read as 0).\<close>

function InverseSearch :: "nat \<Rightarrow> byte \<Rightarrow> byte \<Rightarrow> error + byte" where
  "InverseSearch i a modulus =
     (if i < 256 then
        (let test = (word_of_nat i :: byte);
             product = (case Multiply a test modulus of Inr p \<Rightarrow> p | Inl e \<Rightarrow> 0)
         in if product = 1 then Inr test else InverseSearch (i + 1) a modulus)
      else Inl (InverseNotFound a))"
  by pat_completeness auto
termination
  by (relation "measure (\<lambda>(i, a, m). 256 - i)") auto

definition Inverse :: "byte \<Rightarrow> byte \<Rightarrow> error + byte" where
  "Inverse a modulus = (if a = 0 then Inl ZeroNoInverse else InverseSearch 1 a modulus)"

definition MultiplySimple :: "byte \<Rightarrow> byte \<Rightarrow> byte" where
  "MultiplySimple a b = MultiplyLoop 8 a b 0x1B 0"

text \<open>A multiplicative inverse for each non-zero byte under 0x1B, used to show that the
  search of \<open>Inverse\<close> finds one.\<close>

definition inverse_pairs :: "(byte \<times> byte) list" where
  "inverse_pairs =
    [(1, 1), (2, 141), (3, 246), (4, 203), (5, 82), (6, 123), (7, 209), (8, 232),
     (9, 79), (10, 41), (11, 192), (12, 176), (13, 225), (14, 229), (15, 199), (16, 116),
     (17, 180), (18, 170), (19, 75), (20, 153), (21, 43), (22, 96), (23, 95), (24, 88),
     (25, 63), (26, 253), (27, 204), (28, 255), (29, 64), (30, 238), (31, 178), (32, 58),
     (33, 110), (34, 90), (35, 241), (36, 85), (37, 77), (38, 168), (39, 201), (40, 193),
     (41, 10), (42, 152), (43, 21), (44, 48), (45, 68), (46, 162), (47, 194), (48, 44),
     (49, 69), (50, 146), (51, 108), (52, 243), (53, 57), (54, 102), (55, 66), (56, 242),
     (57, 53), (58, 32), (59, 111), (60, 119), (61, 187), (62, 89), (63, 25), (64, 29),
     (65, 254), (66, 55), (67, 103), (68, 45), (69, 49), (70, 245), (71, 105), (72, 167),
     (73, 100), (74, 171), (75, 19), (76, 84), (77, 37), (78, 233), (79, 9), (80, 237),
     (81, 92), (82, 5), (83, 202), (84, 76), (85, 36), (86, 135), (87, 191), (88, 24),
     (89, 62), (90, 34), (91, 240), (92, 81), (93, 236), (94, 97), (95, 23), (96, 22),
     (97, 94), (98, 175), (99, 211), (100, 73), (101, 166), (102, 54), (103, 67), (104, 244),
     (105, 71), (106, 145), (107, 223), (108, 51), (109, 147), (110, 33), (111, 59), (112, 121),
     (113, 183), (114, 151), (115, 133), (116, 16), (117, 181), (118, 186), (119, 60), (120, 182),
     (121, 112), (122, 208), (123, 6), (124, 161), (125, 250), (126, 129), (127, 130), (128, 131),
     (129, 126), (130, 127), (131, 128), (132, 150), (133, 115), (134, 190), (135, 86), (136, 155),
     (137, 158), (138, 149), (139, 217), (140, 247), (141, 2), (142, 185), (143, 164), (144, 222),
     (145, 106), (146, 50), (147, 109), (148, 216), (149, 138), (150, 132), (151, 114), (152, 42),
     (153, 20), (154, 159), (155, 136), (156, 249), (157, 220), (158, 137), (159, 154), (160, 251),
     (161, 124), (162, 46), (163, 195), (164, 143), (165, 184), (166, 101), (167, 72), (168, 38),
     (169, 200), (170, 18), (171, 74), (172, 206), (173, 231), (174, 210), (175, 98), (176, 12),
     (177, 224), (178, 31), (179, 239), (180, 17), (181, 117), (182, 120), (183, 113), (184, 165),
     (185, 142), (186, 118), (187, 61), (188, 189), (189, 188), (190, 134), (191, 87), (192, 11),
     (193, 40), (194, 47), (195, 163), (196, 218), (197, 212), (198, 228), (199, 15), (200, 169),
     (201, 39), (202, 83), (203, 4), (204, 27), (205, 252), (206, 172), (207, 230), (208, 122),
     (209, 7), (210, 174), (211, 99), (212, 197), (213, 219), (214, 226), (215, 234), (216, 148),
     (217, 139), (218, 196), (219, 213), (220, 157), (221, 248), (222, 144), (223, 107), (224, 177),
     (225, 13), (226, 214), (227, 235), (228, 198), (229, 14), (230, 207), (231, 173), (232, 8),
     (233, 78), (234, 215), (235, 227), (236, 93), (237, 80), (238, 30), (239, 179), (240, 91),
     (241, 35), (242, 56), (243, 52), (244, 104), (245, 70), (246, 3), (247, 140), (248, 221),
     (249, 156), (250, 125), (251, 160), (252, 205), (253, 26), (254, 65), (255, 28)]"

section \<open>Rijndael round transformations (rijndael cipher)\<close>

record RijndaelCipher =
  rc_modulus :: byte
  rc_blockSize :: nat
  rc_keySize :: nat
  rc_rounds :: nat
  rc_sBox :: bytes
  rc_invSBox :: bytes
  rc_roundKeys :: "bytes list"

text \<open>\<^verbatim>\<open>affineTransform\<close>: the loop \<^verbatim>\<open>for i := 0; i < 8; i++\<close>; the first argument of
  \<open>affineLoop\<close> counts the iterations that remain.\<close>

fun affineLoop :: "nat \<Rightarrow> nat \<Rightarrow> byte \<Rightarrow> byte \<Rightarrow> byte" where
  "affineLoop 0 i b result = result"
| "affineLoop (Suc n) i b result =
     (let c = (0x63 :: byte);
          bit0 = b XOR (drop_bit 4 b XOR drop_bit 5 b XOR drop_bit 6 b XOR drop_bit 7 b);
          result' = result OR push_bit i ((bit0 XOR drop_bit i c) AND 1);
          b' = drop_bit 1 b OR push_bit 7 (b AND 1)
      in affineLoop n (i + 1) b' result')"

definition affineTransform :: "byte \<Rightarrow> byte" where
  "affineTransform b = affineLoop 8 0 b 0"

text \<open>\<^verbatim>\<open>initSBoxes\<close>: the S-box entry for \<open>i\<close> (a failed inverse reads as 0), and the
  inverse S-box filled by \<^verbatim>\<open>rc.invSBox[rc.sBox[i]] = byte(i)\<close> for \<open>i\<close> from 0 to 255.\<close>

definition sBoxEntry :: "byte \<Rightarrow> nat \<Rightarrow> byte" where
  "sBoxEntry modulus i =
     (if i = 0 then 0x63
      else affineTransform (case Inverse (word_of_nat i) modulus of Inr t \<Rightarrow> t | Inl e \<Rightarrow> 0))"

definition initSBoxes :: "RijndaelCipher \<Rightarrow> RijndaelCipher" where
  "initSBoxes rc =
     (let sBox = map (sBoxEntry (rc_modulus rc)) [0..<256];
          invSBox = fold (\<lambda>i tbl. tbl[unat (sBox ! i) := word_of_nat i]) [0..<256] (replicate 256 0)
      in rc\<lparr>rc_sBox := sBox, rc_invSBox := invSBox\<rparr>)"

definition NewRijndaelCipher :: "nat \<Rightarrow> nat \<Rightarrow> byte \<Rightarrow> error + RijndaelCipher" where
  "NewRijndaelCipher blockSize keySize modulus =
     (if \<not> (blockSize = 16 \<or> blockSize = 24 \<or> blockSize = 32) then Inl BadRijndaelBlockSize
      else if \<not> (keySize = 16 \<or> keySize = 24 \<or> keySize = 32) then Inl BadRijndaelKeySize
      else
        let rounds = (if keySize = 24 then 12 else if keySize = 32 then 14 else 10)
        in Inr (initSBoxes \<lparr> rc_modulus = modulus, rc_blockSize = blockSize, rc_keySize = keySize,
                                rc_rounds = rounds, rc_sBox = [], rc_invSBox = [],
                                rc_roundKeys = [] \<rparr>))"

text \<open>The cipher object that \<^verbatim>\<open>NewRijndaelCipher(24, 24, 0x1B)\<close> returns.\<close>

definition rijndael_24_24 :: RijndaelCipher where
  "rijndael_24_24 = initSBoxes \<lparr> rc_modulus = 0x1B, rc_blockSize = 24, rc_keySize = 24,
                                  rc_rounds = 12, rc_sBox = [], rc_invSBox = [],
                                  rc_roundKeys = [] \<rparr>"

text \<open>
  \<^verbatim>\<open>shiftRows\<close> and \<^verbatim>\<open>invShiftRows\<close> update the state in place, one assignment after the
  other; the body below is that sequence of assignments.  They index up to
  \<^verbatim>\<open>state[15]\<close>, so a state shorter than 16 bytes panics.
\<close>

definition shiftRows16 :: "bytes \<Rightarrow> bytes" where
  "shiftRows16 state0 =
     (let temp = state0 ! 1;
          state = state0[1 := state0 ! 5];
          state = state[5 := state ! 9];
          state = state[9 := state ! 13];
          state = state[13 := temp];
          temp = state ! 2;
          state = state[2 := state ! 10];
          state = state[10 := temp];
          temp = state ! 6;
          state = state[6 := state ! 14];
          state = state[14 := temp];
          temp = state ! 15;
          state = state[15 := state ! 11];
          state = state[11 := state ! 7];
          state = state[7 := state ! 3];
          state = state[3 := temp]
      in state)"

definition shiftRows :: "RijndaelCipher \<Rightarrow> bytes \<Rightarrow> error + bytes" where
  "shiftRows rc state =
     (if rc_blockSize rc = 16 then
        (if length state < 16 then Inl (Panic IndexOutOfRange) else Inr (shiftRows16 state))
      else Inr state)"

definition invShiftRows16 :: "bytes \<Rightarrow> bytes" where
  "invShiftRows16 state0 =
     (let temp = state0 ! 13;
          state = state0[13 := state0 ! 9];
          state = state[9 := state ! 5];
          state = state[5 := state ! 1];
          state = state[1 := temp];
          temp = state ! 2;
          state = state[2 := state ! 10];
          state = state[10 := temp];
          temp = state ! 6;
          state = state[6 := state ! 14];
          state = state[14 := temp];
          temp = state ! 3;
          state = state[3 := state ! 7];
          state = state[7 := state ! 11];
          state = state[11 := state ! 15];
          state = state[15 := temp]
      in state)"

definition invShiftRows :: "RijndaelCipher \<Rightarrow> bytes \<Rightarrow> error + bytes" where
  "invShiftRows rc state =
     (if rc_blockSize rc = 16 then
        (if length state < 16 then Inl (Panic IndexOutOfRange) else Inr (invShiftRows16 state))
      else Inr state)"

text \<open>One column of \<^verbatim>\<open>mixColumns\<close> / \<^verbatim>\<open>invMixColumns\<close>, at offset \<open>i\<close>, with the
  multiplication as a parameter: the source calls \<^verbatim>\<open>rc.gfService.MultiplySimple\<close>.\<close>

definition mixColumn :: "(byte \<Rightarrow> byte \<Rightarrow> byte) \<Rightarrow> nat \<Rightarrow> bytes \<Rightarrow> bytes" where
  "mixColumn mul i state =
     (let s0 = state ! i; s1 = state ! (i + 1); s2 = state ! (i + 2); s3 = state ! (i + 3);
          state = state[i := mul 0x02 s0 XOR mul 0x03 s1 XOR s2 XOR s3];
          state = state[i + 1 := s0 XOR mul 0x02 s1 XOR mul 0x03 s2 XOR s3];
          state = state[i + 2 := s0 XOR s1 XOR mul 0x02 s2 XOR mul 0x03 s3];
          state = state[i + 3 := mul 0x03 s0 XOR s1 XOR s2 XOR mul 0x02 s3]
      in state)"

definition invMixColumn :: "(byte \<Rightarrow> byte \<Rightarrow> byte) \<Rightarrow> nat \<Rightarrow> bytes \<Rightarrow> bytes" where
  "invMixColumn mul i state =
     (let s0 = state ! i; s1 = state ! (i + 1); s2 = state ! (i + 2); s3 = state ! (i + 3);
          state = state[i := mul 0x0e s0 XOR mul 0x0b s1 XOR mul 0x0d s2 XOR mul 0x09 s3];
          state = state[i + 1 := mul 0x09 s0 XOR mul 0x0e s1 XOR mul 0x0b s2 XOR mul 0x0d s3];
          state = state[i + 2 := mul 0x0d s0 XOR mul 0x09 s1 XOR mul 0x0e s2 XOR mul 0x0b s3];
          state = state[i + 3 := mul 0x0b s0 XOR mul 0x0d s1 XOR mul 0x09 s2 XOR mul 0x0e s3]
      in state)"

text \<open>The loop \<^verbatim>\<open>for i := 0; i < rc.blockSize; i += 4\<close> with its guard
  \<^verbatim>\<open>if i+4 <= rc.blockSize\<close>; \<open>column\<close> is the body for one column.  Reading
  \<^verbatim>\<open>state[i+3]\<close> past the end of the state panics.\<close>

function columnsLoop :: "(nat \<Rightarrow> bytes \<Rightarrow> bytes) \<Rightarrow> nat \<Rightarrow> nat \<Rightarrow> bytes \<Rightarrow> error + bytes" where
  "columnsLoop column blockSize i state =
     (if i < blockSize then
        (if i + 4 \<le> blockSize then
           (if length state < i + 4 then Inl (Panic IndexOutOfRange)
            else columnsLoop column blockSize (i + 4) (column i state))
         else columnsLoop column blockSize (i + 4) state)
      else Inr state)"
  by pat_completeness auto
termination
  by (relation "measure (\<lambda>(c, blockSize, i, s). blockSize - i)") auto

definition mixColumns :: "RijndaelCipher \<Rightarrow> bytes \<Rightarrow> error + bytes" where
  "mixColumns rc state = columnsLoop (mixColumn MultiplySimple) (rc_blockSize rc) 0 state"

definition invMixColumns :: "RijndaelCipher \<Rightarrow> bytes \<Rightarrow> error + bytes" where
  "invMixColumns rc state = columnsLoop (invMixColumn MultiplySimple) (rc_blockSize rc) 0 state"

text \<open>
  The same two transformations as the specification words them for a cipher that
  multiplied under a given reduction polynomial \<open>m\<close>: the product is the one
  \<open>Multiply\<close> computes under \<open>m\<close>.
\<close>

definition mixColumnsUnder :: "byte \<Rightarrow> nat \<Rightarrow> bytes \<Rightarrow> error + bytes" where
  "mixColumnsUnder m blockSize state = columnsLoop (mixColumn (gfmul m)) blockSize 0 state"

definition invMixColumnsUnder :: "byte \<Rightarrow> nat \<Rightarrow> bytes \<Rightarrow> error + bytes" where
  "invMixColumnsUnder m blockSize state = columnsLoop (invMixColumn (gfmul m)) blockSize 0 state"

section \<open>Bit permutation (permute.go)\<close>

text \<open>\<^verbatim>\<open>PermuteBits\<close>: \<open>permuteBit\<close> is the body of the loop over the rule for output
  bit \<open>i\<close> and rule entry \<open>r\<close>; \<open>PermuteLoop\<close> is the loop.\<close>

definition permuteBit :: "bytes \<Rightarrow> bool \<Rightarrow> int \<Rightarrow> nat \<Rightarrow> int \<Rightarrow> bytes \<Rightarrow> error + bytes" where
  "permuteBit val indexFromLSB startBitNum i r result =
     (let sourcePos = r - startBitNum in
      if sourcePos < 0 \<or> sourcePos \<ge> int (length val) * 8 then Inl (PositionOutOfBounds r)
      else
        let sourceByte = nat sourcePos div 8;
            sourceBit = (if indexFromLSB then nat sourcePos mod 8 else 7 - nat sourcePos mod 8)
        in if sourceByte \<ge> length val then Inl (SourceByteOutOfBounds sourceByte)
           else
             let bitValue = drop_bit sourceBit (val ! sourceByte) AND 1;
                 destByte = i div 8;
                 destBit = (if indexFromLSB then i mod 8 else 7 - i mod 8)
             in Inr (if destByte < length result
                     then result[destByte := (result ! destByte) OR push_bit destBit bitValue]
                     else result))"

fun PermuteLoop :: "bytes \<Rightarrow> int list \<Rightarrow> bool \<Rightarrow> int \<Rightarrow> nat \<Rightarrow> bytes \<Rightarrow> error + bytes" where
  "PermuteLoop val [] indexFromLSB startBitNum i result = Inr result"
| "PermuteLoop val (r # rule) indexFromLSB startBitNum i result =
     (case permuteBit val indexFromLSB startBitNum i r result of
        Inl e \<Rightarrow> Inl e
      | Inr result' \<Rightarrow> PermuteLoop val rule indexFromLSB startBitNum (i + 1) result')"

definition PermuteBits :: "bytes \<Rightarrow> int list \<Rightarrow> bool \<Rightarrow> int \<Rightarrow> error + bytes" where
  "PermuteBits val rule indexFromLSB startBitNum =
     PermuteLoop val rule indexFromLSB startBitNum 0 (replicate ((length rule + 7) div 8) 0)"

section \<open>DES key schedule (des\_key\_schedule.go)\<close>

definition PC1 :: "int list" where
  "PC1 = [57, 49, 41, 33, 25, 17, 9,
          1, 58, 50, 42, 34, 26, 18,
          10, 2, 59, 51, 43, 35, 27,
          19, 11, 3, 60, 52, 44, 36,
          63, 55, 47, 39, 31, 23, 15,
          7, 62, 54, 46, 38, 30, 22,
          14, 6, 61, 53, 45, 37, 29,
          21, 13, 5, 28, 20, 12, 4]"

definition PC2 :: "int list" where
  "PC2 = [14, 17, 11, 24, 1, 5,
          3, 28, 15, 6, 21, 10,
          23, 19, 12, 4, 26, 8,
          16, 7, 27, 20, 13, 2,
          41, 52, 31, 37, 47, 55,
          30, 40, 51, 45, 33, 48,
          44, 49, 39, 56, 34, 53,
          46, 42, 50, 36, 29, 32]"

definition SHIFT_SCHEDULE :: "nat list" where
  "SHIFT_SCHEDULE = [1, 1, 2, 2, 2, 2, 2, 2, 1, 2, 2, 2, 2, 2, 2, 1]"

text \<open>\<^verbatim>\<open>leftShift28\<close>: the four bytes are read as one big-endian \<^verbatim>\<open>uint32\<close>, masked to its
  low 28 bits, rotated and written back big-endian.  A shift count above 28 makes
  \<^verbatim>\<open>28 - shifts\<close> negative, which panics in Go.\<close>

definition leftShift28 :: "bytes \<Rightarrow> nat \<Rightarrow> error + bytes" where
  "leftShift28 data shifts =
     (if length data \<noteq> 4 then Inl BadShiftData
      else if shifts > 28 then Inl (Panic NegativeShift)
      else
        let v0 = (push_bit 24 (ucast (data ! 0)) OR push_bit 16 (ucast (data ! 1))
                   OR push_bit 8 (ucast (data ! 2)) OR ucast (data ! 3) :: 32 word);
            mask28 = (0x0FFFFFFF :: 32 word);
            v1 = v0 AND mask28;
            v2 = (push_bit shifts v1 OR drop_bit (28 - shifts) v1) AND mask28
        in Inr [ucast (drop_bit 24 v2 AND 0xFF), ucast (drop_bit 16 v2 AND 0xFF),
                ucast (drop_bit 8 v2 AND 0xFF), ucast (v2 AND 0xFF)])"

text \<open>
  \<^verbatim>\<open>GenerateRoundKeys\<close> has four loops \<^verbatim>\<open>for i := 0; i < 28; i++\<close> of one shape: bit
  \<open>i + srcOff\<close> of the source, counted from the most significant bit of byte 0, is
  or-ed into bit \<open>i + dstOff\<close> of the destination.  \<open>copyBit\<close> is the body and \<open>copyBits28\<close> the loop, whose
  first argument counts the iterations that remain.  The four uses are
  permuted key to C (offsets 0, 0), permuted key to D (28, 0), C to CD (0, 0) and D to
  CD (0, 28).
\<close>

definition copyBit :: "nat \<Rightarrow> bytes \<Rightarrow> nat \<Rightarrow> bytes \<Rightarrow> nat \<Rightarrow> error + bytes" where
  "copyBit i src srcOff dst dstOff =
     (let srcByteIdx = (i + srcOff) div 8;
          srcBitIdx = 7 - (i + srcOff) mod 8;
          dstByteIdx = (i + dstOff) div 8;
          dstBitIdx = 7 - (i + dstOff) mod 8
      in if srcByteIdx \<ge> length src \<or> dstByteIdx \<ge> length dst then Inl (Panic IndexOutOfRange)
         else
           let b = drop_bit srcBitIdx (src ! srcByteIdx) AND 1
           in Inr (dst[dstByteIdx := (dst ! dstByteIdx) OR push_bit dstBitIdx b]))"

fun copyBits28 :: "nat \<Rightarrow> nat \<Rightarrow> bytes \<Rightarrow> nat \<Rightarrow> bytes \<Rightarrow> nat \<Rightarrow> error + bytes" where
  "copyBits28 0 i src srcOff dst dstOff = Inr dst"
| "copyBits28 (Suc n) i src srcOff dst dstOff =
     (case copyBit i src srcOff dst dstOff of
        Inl e \<Rightarrow> Inl e
      | Inr dst' \<Rightarrow> copyBits28 n (i + 1) src srcOff dst' dstOff)"

text \<open>The loop \<^verbatim>\<open>for round := 0; round < 16; round++\<close>; \<open>roundKeyStep\<close> is its body and
  returns the rotated halves and the round key.\<close>

definition roundKeyStep :: "nat \<Rightarrow> bytes \<Rightarrow> bytes \<Rightarrow> error + (bytes \<times> bytes \<times> bytes)" where
  "roundKeyStep round C D =
     (case leftShift28 C (SHIFT_SCHEDULE ! round) of
        Inl e \<Rightarrow> Inl (wrap (ShiftFailed round) e)
      | Inr C' \<Rightarrow>
     (case leftShift28 D (SHIFT_SCHEDULE ! round) of
        Inl e \<Rightarrow> Inl (wrap (ShiftFailed round) e)
      | Inr D' \<Rightarrow>
     (case copyBits28 28 0 C' 0 (replicate 7 0) 0 of
        Inl e \<Rightarrow> Inl e
      | Inr CD0 \<Rightarrow>
     (case copyBits28 28 0 D' 0 CD0 28 of
        Inl e \<Rightarrow> Inl e
      | Inr CD \<Rightarrow>
     (case PermuteBits CD PC2 False 1 of
        Inl e \<Rightarrow> Inl (wrap (PC2Failed round) e)
      | Inr roundKey \<Rightarrow> Inr (C', D', roundKey))))))"

function roundKeysLoop :: "nat \<Rightarrow> bytes \<Rightarrow> bytes \<Rightarrow> bytes list \<Rightarrow> error + bytes list" where
  "roundKeysLoop round C D roundKeys =
     (if round < 16 then
        (case roundKeyStep round C D of
           Inl e \<Rightarrow> Inl e
         | Inr (C', D', roundKey) \<Rightarrow> roundKeysLoop (round + 1) C' D' (roundKeys @ [roundKey]))
      else Inr roundKeys)"
  by pat_completeness auto
termination
  by (relation "measure (\<lambda>(round, C, D, ks). 16 - round)") auto

definition GenerateRoundKeys :: "bytes \<Rightarrow> error + bytes list" where
  "GenerateRoundKeys masterKey =
     (if length masterKey \<noteq> 8 then Inl BadDESKeyLength
      else
        case PermuteBits masterKey PC1 False 1 of
          Inl e \<Rightarrow> Inl (wrap PC1Failed e)
        | Inr permutedKey \<Rightarrow>
        (case copyBits28 28 0 permutedKey 0 (replicate 4 0) 0 of
           Inl e \<Rightarrow> Inl e
         | Inr C \<Rightarrow>
        (case copyBits28 28 0 permutedKey 28 (replicate 4 0) 0 of
           Inl e \<Rightarrow> Inl e
         | Inr D \<Rightarrow> roundKeysLoop 0 C D [])))"

text \<open>
  The rotation as the specification words it, on a 28-bit quantity \<open>v\<close>:
  \<^verbatim>\<open>((v << s) | (v >> (28 - s))) & 0x0FFFFFFF\<close>; and the 28-bit quantity that a
  four-byte half holds, bit \<open>i\<close> of the half being bit \<open>7 - i mod 8\<close> of byte \<open>i div 8\<close>
  as the loops of \<^verbatim>\<open>GenerateRoundKeys\<close> write and read it (the low four bits of the
  last byte are not part of the half).
\<close>

definition rotl28 :: "32 word \<Rightarrow> nat \<Rightarrow> 32 word" where
  "rotl28 v s = (push_bit s v OR drop_bit (28 - s) v) AND 0x0FFFFFFF"

definition half28 :: "bytes \<Rightarrow> 32 word" where
  "half28 h = drop_bit 4 (push_bit 24 (ucast (h ! 0)) OR push_bit 16 (ucast (h ! 1))
                OR push_bit 8 (ucast (h ! 2)) OR ucast (h ! 3) :: 32 word)"

section \<open>Feistel network (feistel\_network.go)\<close>

text \<open>The interfaces \<^verbatim>\<open>IKeySchedule\<close> and \<^verbatim>\<open>IRoundFunction\<close> have one method each; an
  implementation is the function that the method computes.\<close>

record FeistelNetwork =
  fn_keySchedule :: "bytes \<Rightarrow> error + bytes list"
  fn_roundFunction :: "bytes \<Rightarrow> bytes \<Rightarrow> error + bytes"
  fn_blockSize :: nat
  fn_roundsCount :: nat
  fn_currentKey :: bytes
  fn_roundKeys :: "bytes list"

definition NewFeistelNetwork ::
  "(bytes \<Rightarrow> error + bytes list) option \<Rightarrow> (bytes \<Rightarrow> bytes \<Rightarrow> error + bytes) option
     \<Rightarrow> nat \<Rightarrow> nat \<Rightarrow> error + FeistelNetwork" where
  "NewFeistelNetwork keyScheduleImpl roundFunctionImpl blockSize roundsCount =
     (case keyScheduleImpl of
        None \<Rightarrow> Inl NilKeySchedule
      | Some ks \<Rightarrow>
     (case roundFunctionImpl of
        None \<Rightarrow> Inl NilRoundFunction
      | Some rf \<Rightarrow>
        if blockSize mod 2 \<noteq> 0 then Inl OddBlockSize
        else Inr \<lparr> fn_keySchedule = ks, fn_roundFunction = rf,
                   fn_blockSize = (if blockSize = 0 then 8 else blockSize),
                   fn_roundsCount = (if roundsCount = 0 then 16 else roundsCount),
                   fn_currentKey = [], fn_roundKeys = [] \<rparr>))"

definition splitBlock :: "bytes \<Rightarrow> error + (bytes \<times> bytes)" where
  "splitBlock block =
     (if length block = 0 then Inl EmptyBlock
      else if length block mod 2 \<noteq> 0 then Inl OddBlock
      else let halfSize = length block div 2 in Inr (take halfSize block, drop halfSize block))"

text \<open>\<^verbatim>\<open>combineBlocks\<close> rejects nil halves; its callers pass slices made by
  \<^verbatim>\<open>make\<close>, which are never nil, so the model has the success branch only.\<close>

definition combineBlocks :: "bytes \<Rightarrow> bytes \<Rightarrow> error + bytes" where
  "combineBlocks left right = Inr (left @ right)"

text \<open>\<^verbatim>\<open>FeistelNetwork.xorBlocks\<close> rejects a nil operand and an operand of length 0 (a nil
  slice has length 0); both rejections are the error \<open>EmptyXor\<close> here.\<close>

definition fn_xorBlocks :: "bytes \<Rightarrow> bytes \<Rightarrow> error + bytes" where
  "fn_xorBlocks left right =
     (let minSize = min (length left) (length right) in
      if minSize = 0 then Inl EmptyXor
      else Inr (map (\<lambda>(x, y). x XOR y) (zip (take minSize left) (take minSize right))))"

text \<open>\<^verbatim>\<open>SetKey\<close> returns the network as it leaves it, and the error if any.\<close>

fun SetKey :: "FeistelNetwork \<Rightarrow> bytes option \<Rightarrow> FeistelNetwork \<times> error option" where
  "SetKey fn None = (fn, Some NilKey)"
| "SetKey fn (Some k) =
     (if length k = 0 then (fn, Some EmptyKey)
      else
        let fn1 = fn\<lparr>fn_currentKey := k\<rparr> in
        case fn_keySchedule fn k of
          Inl e \<Rightarrow> (fn1, Some (wrap KeyScheduleFailed e))
        | Inr rks \<Rightarrow>
            let fn2 = fn1\<lparr>fn_roundKeys := rks\<rparr> in
            if length (fn_roundKeys fn2) < fn_roundsCount fn2
            then (fn2, Some (InsufficientRoundKeys (length (fn_roundKeys fn2)) (fn_roundsCount fn2)))
            else (fn2, None))"

text \<open>The loop \<^verbatim>\<open>for round := 0; round < fn.roundsCount; round++\<close> of \<^verbatim>\<open>EncryptBlock\<close>.
  \<^verbatim>\<open>fn.roundKeys[round]\<close> is evaluated before the round function is called and panics
  when \<open>round\<close> is not an index of the list.\<close>

function encryptRounds :: "FeistelNetwork \<Rightarrow> nat \<Rightarrow> bytes \<Rightarrow> bytes \<Rightarrow> error + (bytes \<times> bytes)" where
  "encryptRounds fn round left right =
     (if round < fn_roundsCount fn then
        (if length (fn_roundKeys fn) \<le> round then Inl (Panic IndexOutOfRange)
         else
           case fn_roundFunction fn right (fn_roundKeys fn ! round) of
             Inl e \<Rightarrow> Inl (wrap (RoundFunctionFailed round) e)
           | Inr functionOutput \<Rightarrow>
          (case fn_xorBlocks left functionOutput of
             Inl e \<Rightarrow> Inl (wrap (XorFailed round) e)
           | Inr newRight \<Rightarrow> encryptRounds fn (round + 1) right newRight))
      else Inr (left, right))"
  by pat_completeness auto
termination
  by (relation "measure (\<lambda>(fn, round, l, r). fn_roundsCount fn - round)") auto

text \<open>The loop \<^verbatim>\<open>for round := fn.roundsCount - 1; round >= 0; round--\<close> of
  \<^verbatim>\<open>DecryptBlock\<close>; the second argument is \<open>round + 1\<close>.\<close>

fun decryptRounds :: "FeistelNetwork \<Rightarrow> nat \<Rightarrow> bytes \<Rightarrow> bytes \<Rightarrow> error + (bytes \<times> bytes)" where
  "decryptRounds fn 0 left right = Inr (left, right)"
| "decryptRounds fn (Suc round) left right =
     (if length (fn_roundKeys fn) \<le> round then Inl (Panic IndexOutOfRange)
      else
        case fn_roundFunction fn left (fn_roundKeys fn ! round) of
          Inl e \<Rightarrow> Inl (wrap (RoundFunctionFailed round) e)
        | Inr functionOutput \<Rightarrow>
       (case fn_xorBlocks right functionOutput of
          Inl e \<Rightarrow> Inl (wrap (XorFailed round) e)
        | Inr newLeft \<Rightarrow> decryptRounds fn round newLeft left))"

fun EncryptBlock :: "FeistelNetwork \<Rightarrow> bytes option \<Rightarrow> error + bytes" where
  "EncryptBlock fn None = Inl NilBlock"
| "EncryptBlock fn (Some plainBlock) =
     (if length plainBlock \<noteq> fn_blockSize fn
      then Inl (BadBlockSize (length plainBlock) (fn_blockSize fn))
      else if length (fn_roundKeys fn) = 0 then Inl KeyNotSet
      else
        case splitBlock plainBlock of
          Inl e \<Rightarrow> Inl (wrap SplitFailed e)
        | Inr (left, right) \<Rightarrow>
       (case encryptRounds fn 0 left right of
          Inl e \<Rightarrow> Inl e
        | Inr (left', right') \<Rightarrow>
       (case combineBlocks left' right' of
          Inl e \<Rightarrow> Inl (wrap CombineFailed e)
        | Inr result \<Rightarrow> Inr result)))"

fun DecryptBlock :: "FeistelNetwork \<Rightarrow> bytes option \<Rightarrow> error + bytes" where
  "DecryptBlock fn None = Inl NilBlock"
| "DecryptBlock fn (Some cipherBlock) =
     (if length cipherBlock \<noteq> fn_blockSize fn
      then Inl (BadBlockSize (length cipherBlock) (fn_blockSize fn))
      else if length (fn_roundKeys fn) = 0 then Inl KeyNotSet
      else
        case splitBlock cipherBlock of
          Inl e \<Rightarrow> Inl (wrap SplitFailed e)
        | Inr (left, right) \<Rightarrow>
       (case decryptRounds fn (fn_roundsCount fn) left right of
          Inl e \<Rightarrow> Inl e
        | Inr (left', right') \<Rightarrow>
       (case combineBlocks left' right' of
          Inl e \<Rightarrow> Inl (wrap CombineFailed e)
        | Inr result \<Rightarrow> Inr result)))"

text \<open>
  The Feistel recurrences as the specification writes them, for a round function \<open>F\<close>
  that returns a half block: \<open>feistelLR F K r (L0, R0)\<close> is \<open>(L r, R r)\<close> with
  \<open>L (r+1) = R r\<close> and \<open>R (r+1) = L r \<oplus> F (R r) (K r)\<close>; \<open>feistelInv F K n j (Ln, Rn)\<close> is the
  pair \<open>(L (n-j), R (n-j))\<close> obtained from \<open>(L n, R n)\<close> by \<open>j\<close> steps
  \<open>R r = L (r+1)\<close>, \<open>L r = R (r+1) \<oplus> F (L (r+1)) (K r)\<close>.
\<close>

definition xorBytes :: "bytes \<Rightarrow> bytes \<Rightarrow> bytes" where
  "xorBytes a b = map (\<lambda>(x, y). x XOR y) (zip a b)"

fun feistelLR :: "(bytes \<Rightarrow> bytes \<Rightarrow> bytes) \<Rightarrow> bytes list \<Rightarrow> nat \<Rightarrow> bytes \<times> bytes \<Rightarrow> bytes \<times> bytes" where
  "feistelLR F K 0 LR = LR"
| "feistelLR F K (Suc r) LR =
     (let (L, R) = feistelLR F K r LR in (R, xorBytes L (F R (K ! r))))"

fun feistelInv :: "(bytes \<Rightarrow> bytes \<Rightarrow> bytes) \<Rightarrow> bytes list \<Rightarrow> nat \<Rightarrow> nat \<Rightarrow> bytes \<times> bytes \<Rightarrow> bytes \<times> bytes" where
  "feistelInv F K n 0 LR = LR"
| "feistelInv F K n (Suc j) LR =
     (let (L, R) = feistelInv F K n j LR; r = n - Suc j in (xorBytes R (F L (K ! r)), L))"

text \<open>
  A small instance of the two interfaces, for the closed examples below: the key schedule
  derives two round keys from the key, the short one derives a single round key, and the
  round function adds the first byte of the round key to every byte of the half block.
  The keyed round function does the same and rejects a round key that is not of two
  bytes, as the round function of DEAL rejects one that is not of eight.
\<close>

definition demoKeySchedule :: "bytes \<Rightarrow> error + bytes list" where
  "demoKeySchedule k = Inr [k, rev k]"

definition shortKeySchedule :: "bytes \<Rightarrow> error + bytes list" where
  "shortKeySchedule k = Inr [k]"

definition demoRound :: "bytes \<Rightarrow> bytes \<Rightarrow> bytes" where
  "demoRound b k = map (\<lambda>x. x + (case k of [] \<Rightarrow> 0 | k0 # ks \<Rightarrow> k0)) b"

definition demoRoundFunction :: "bytes \<Rightarrow> bytes \<Rightarrow> error + bytes" where
  "demoRoundFunction b k = Inr (demoRound b k)"

definition keyedRoundFunction :: "bytes \<Rightarrow> bytes \<Rightarrow> error + bytes" where
  "keyedRoundFunction b k =
     (if length k \<noteq> 2 then Inl (BadRoundKeyLength (length k)) else Inr (demoRound b k))"

text \<open>The networks that \<^verbatim>\<open>NewFeistelNetwork\<close> builds from them for 4-byte blocks and two
  rounds, before any key is set.\<close>

definition demoNetwork :: FeistelNetwork where
  "demoNetwork = \<lparr> fn_keySchedule = demoKeySchedule, fn_roundFunction = keyedRoundFunction,
                    fn_blockSize = 4, fn_roundsCount = 2, fn_currentKey = [], fn_roundKeys = [] \<rparr>"

definition shortNetwork :: FeistelNetwork where
  "shortNetwork = \<lparr> fn_keySchedule = shortKeySchedule, fn_roundFunction = demoRoundFunction,
                     fn_blockSize = 4, fn_roundsCount = 2, fn_currentKey = [], fn_roundKeys = [] \<rparr>"

section \<open>Cipher context (cipher\_context.go)\<close>

text \<open>
  \<^verbatim>\<open>CipherMode\<close> and \<^verbatim>\<open>PaddingMode\<close> are Go integers: the last constructor of each
  type stands for a value outside the declared constants, which the \<^verbatim>\<open>default\<close> branches
  of the source handle.
\<close>

datatype CipherMode =
    CipherModeECB | CipherModeCBC | CipherModePCBC | CipherModeCFB | CipherModeOFB
  | CipherModeCTR | CipherModeRandomDelta | CipherModeOther int

datatype PaddingMode =
    PaddingModeZeros | PaddingModeANSIX923 | PaddingModePKCS7 | PaddingModeISO10126
  | PaddingModeOther int

text \<open>
  An implementation of the interface \<^verbatim>\<open>ISymmetricCipher\<close> is an object with a state of
  some type \<open>'s\<close> and its three methods.  \<^verbatim>\<open>SetKey\<close> returns the new state and the error
  if any; the block methods read the state.
\<close>

record 's SymmetricCipher =
  cipherState :: 's
  cipherSetKey :: "'s \<Rightarrow> bytes \<Rightarrow> 's \<times> error option"
  cipherEncryptBlock :: "'s \<Rightarrow> bytes \<Rightarrow> error + bytes"
  cipherDecryptBlock :: "'s \<Rightarrow> bytes \<Rightarrow> error + bytes"

record 's CipherContext =
  ctx_cipher :: "'s SymmetricCipher"
  ctx_key :: bytes
  ctx_mode :: CipherMode
  ctx_paddingMode :: PaddingMode
  ctx_iv :: bytes
  ctx_blockSize :: int
  ctx_parallel :: bool

text \<open>\<^verbatim>\<open>ctx.cipher.EncryptBlock(b)\<close> and \<^verbatim>\<open>ctx.cipher.DecryptBlock(b)\<close>.\<close>

definition encBlock :: "'s CipherContext \<Rightarrow> bytes \<Rightarrow> error + bytes" where
  "encBlock ctx b = cipherEncryptBlock (ctx_cipher ctx) (cipherState (ctx_cipher ctx)) b"

definition decBlock :: "'s CipherContext \<Rightarrow> bytes \<Rightarrow> error + bytes" where
  "decBlock ctx b = cipherDecryptBlock (ctx_cipher ctx) (cipherState (ctx_cipher ctx)) b"

text \<open>\<^verbatim>\<open>CipherContext.SetKey\<close> returns the context as it leaves it, and the error if any.\<close>

definition ctxSetKey :: "'s CipherContext \<Rightarrow> bytes \<Rightarrow> 's CipherContext \<times> error option" where
  "ctxSetKey ctx newKey =
     (let c = ctx_cipher ctx;
          (st, err) = cipherSetKey c (cipherState c) newKey
      in (ctx\<lparr>ctx_key := newKey, ctx_cipher := c\<lparr>cipherState := st\<rparr>\<rparr>, err))"

text \<open>\<^verbatim>\<open>NewCipherContext\<close>; \<open>None\<close> is the nil cipher.  For an empty IV in a mode other
  than ECB the IV is \<^verbatim>\<open>make([]uint8, blockSize)\<close>, which panics for a negative block size.\<close>

definition NewCipherContext ::
  "'s SymmetricCipher option \<Rightarrow> bytes \<Rightarrow> CipherMode \<Rightarrow> PaddingMode \<Rightarrow> bytes \<Rightarrow> int \<Rightarrow> bool
     \<Rightarrow> error + 's CipherContext" where
  "NewCipherContext cipher k m p ivArg blockSize par =
     (case cipher of
        None \<Rightarrow> Inl NilCipher
      | Some c \<Rightarrow>
          let ctx = \<lparr> ctx_cipher = c, ctx_key = k, ctx_mode = m, ctx_paddingMode = p,
                      ctx_iv = [], ctx_blockSize = blockSize, ctx_parallel = par \<rparr>;
              (ctx1, err) = ctxSetKey ctx k
          in case err of
               Some e \<Rightarrow> Inl (wrap SetKeyFailed e)
             | None \<Rightarrow>
                 if length ivArg = 0 \<and> m \<noteq> CipherModeECB then
                   (if blockSize < 0 then Inl (Panic NegativeLength)
                    else Inr (ctx1\<lparr>ctx_iv := replicate (nat blockSize) 0\<rparr>))
                 else Inr (ctx1\<lparr>ctx_iv := ivArg\<rparr>))"

definition SetMode :: "'s CipherContext \<Rightarrow> CipherMode \<Rightarrow> 's CipherContext" where
  "SetMode ctx newMode = ctx\<lparr>ctx_mode := newMode\<rparr>"

definition SetPaddingMode :: "'s CipherContext \<Rightarrow> PaddingMode \<Rightarrow> 's CipherContext" where
  "SetPaddingMode ctx newPaddingMode = ctx\<lparr>ctx_paddingMode := newPaddingMode\<rparr>"


text \<open>\<^verbatim>\<open>CipherContext.xorBlocks\<close>: the XOR of the first \<open>minSize\<close> bytes of both operands
  (\<open>zip\<close> stops at the shorter list).\<close>

definition xorBlocks :: "bytes \<Rightarrow> bytes \<Rightarrow> bytes" where
  "xorBlocks dest src = map (\<lambda>(x, y). x XOR y) (zip dest src)"

text \<open>\<^verbatim>\<open>incrementCounter\<close>: the loop \<^verbatim>\<open>for i := len(counter) - 1; i >= 0; i--\<close>; the first
  argument of \<open>incrementLoop\<close> is \<open>i + 1\<close>.\<close>

fun incrementLoop :: "nat \<Rightarrow> bytes \<Rightarrow> bytes" where
  "incrementLoop 0 counter = counter"
| "incrementLoop (Suc i) counter =
     (let counter' = counter[i := counter ! i + 1]
      in if counter' ! i \<noteq> 0 then counter' else incrementLoop i counter')"

definition incrementCounter :: "bytes \<Rightarrow> bytes" where
  "incrementCounter counter = incrementLoop (length counter) counter"

text \<open>
  \<^verbatim>\<open>crypto/rand.Read\<close>: the bytes that the system's random source will deliver are an
  argument, \<open>rng\<close>; reading \<open>n\<close> bytes takes them from its front and fails when the source
  has fewer.  The functions that read random bytes return the rest of the source.
\<close>

definition randRead :: "nat \<Rightarrow> bytes \<Rightarrow> error + (bytes \<times> bytes)" where
  "randRead n rng = (if length rng < n then Inl RandomSourceFailed else Inr (take n rng, drop n rng))"

text \<open>
  \<^verbatim>\<open>applyPadding\<close>.  \<^verbatim>\<open>dataLength % ctx.blockSize\<close> panics for a block size of 0, and
  \<^verbatim>\<open>make([]uint8, dataLength+paddingLength)\<close> for a negative length (the padding length is
  negative for a negative block size).  \<open>padded\<close> is that slice with the data copied into
  it.  The PKCS7 loop fills the bytes from index \<open>dataLength\<close> on; the ANSI and ISO
  branches write the last byte, which panics on an empty slice; the ISO branch reads its
  random bytes only for a padding length above 1, where the slice is the data followed
  by \<open>paddingLength\<close> bytes.  \<^verbatim>\<open>uint8(paddingLength)\<close> truncates to 8 bits.
\<close>

fun applyPadding :: "'s CipherContext \<Rightarrow> bytes \<Rightarrow> bytes option \<Rightarrow> error + (bytes \<times> bytes)" where
  "applyPadding ctx rng None = Inl NilData"
| "applyPadding ctx rng (Some data) =
     (if ctx_blockSize ctx = 0 then Inl (Panic DivideByZero)
      else
        let dataLength = int (length data);
            paddingLength0 = ctx_blockSize ctx - dataLength smod ctx_blockSize ctx;
            paddingLength = (if paddingLength0 = 0 then ctx_blockSize ctx else paddingLength0)
        in if dataLength + paddingLength < 0 then Inl (Panic NegativeLength)
           else
             let n = nat (dataLength + paddingLength);
                 padded = take n data @ replicate (n - length data) 0
             in case ctx_paddingMode ctx of
                  PaddingModeZeros \<Rightarrow> Inr (padded, rng)
                | PaddingModePKCS7 \<Rightarrow>
                    Inr (take n data @ replicate (n - length data) (word_of_int paddingLength), rng)
                | PaddingModeANSIX923 \<Rightarrow>
                    (if n = 0 then Inl (Panic IndexOutOfRange)
                     else Inr (padded[n - 1 := word_of_int paddingLength], rng))
                | PaddingModeISO10126 \<Rightarrow>
                    (if paddingLength > 1 then
                       (case randRead (nat (paddingLength - 1)) rng of
                          Inl e \<Rightarrow> Inl (wrap RandomFailed e)
                        | Inr (randomBytes, rng') \<Rightarrow>
                            Inr (data @ randomBytes @ [word_of_int paddingLength], rng'))
                     else if n = 0 then Inl (Panic IndexOutOfRange)
                     else Inr (padded[n - 1 := word_of_int paddingLength], rng))
                | PaddingModeOther v \<Rightarrow> Inl UnsupportedPaddingMode)"

text \<open>The loop \<^verbatim>\<open>for i := len(data) - 1; i >= 0; i--\<close> of the Zeros branch of
  \<^verbatim>\<open>removePadding\<close>; the first argument is \<open>i + 1\<close>.\<close>

fun stripZeros :: "nat \<Rightarrow> bytes \<Rightarrow> bytes" where
  "stripZeros 0 data = []"
| "stripZeros (Suc i) data = (if data ! i \<noteq> 0 then take (i + 1) data else stripZeros i data)"

text \<open>\<^verbatim>\<open>removePadding\<close>; its error result is always nil.  The loops of the PKCS7 and ANSI
  branches test the bytes from index \<open>len(data) - paddingLength\<close> on.\<close>

definition removePadding :: "'s CipherContext \<Rightarrow> bytes \<Rightarrow> error + bytes" where
  "removePadding ctx data =
     (if length data = 0 then Inr data
      else
        let paddingLength = unat (last data) in
        if paddingLength \<le> 0 \<or> int paddingLength > ctx_blockSize ctx \<or> paddingLength > length data
        then Inr data
        else
          case ctx_paddingMode ctx of
            PaddingModePKCS7 \<Rightarrow>
              (if list_all (\<lambda>b. b = word_of_nat paddingLength) (drop (length data - paddingLength) data)
               then Inr (take (length data - paddingLength) data) else Inr data)
          | PaddingModeANSIX923 \<Rightarrow>
              (if list_all (\<lambda>b. b = 0) (take (paddingLength - 1) (drop (length data - paddingLength) data))
               then Inr (take (length data - paddingLength) data) else Inr data)
          | PaddingModeISO10126 \<Rightarrow> Inr (take (length data - paddingLength) data)
          | PaddingModeZeros \<Rightarrow> Inr (stripZeros (length data) data)
          | PaddingModeOther v \<Rightarrow> Inr data)"

text \<open>
  A cipher for the closed examples: its state is the key, \<^verbatim>\<open>SetKey\<close> rejects the empty
  key, and both block methods reject a block that is not of \<open>bs\<close> bytes and XOR the
  first key byte onto every byte of the block.
\<close>

definition xorBlock :: "nat \<Rightarrow> bytes \<Rightarrow> bytes \<Rightarrow> error + bytes" where
  "xorBlock bs st b =
     (case st of
        [] \<Rightarrow> Inl KeyNotSet
      | k0 # ks \<Rightarrow>
          if length b \<noteq> bs then Inl (BadBlockSize (length b) bs)
          else Inr (map (\<lambda>x. x XOR k0) b))"

definition xorCipher :: "nat \<Rightarrow> bytes SymmetricCipher" where
  "xorCipher bs =
     \<lparr> cipherState = [],
       cipherSetKey = (\<lambda>st k. if k = [] then (st, Some EmptyKey) else (k, None)),
       cipherEncryptBlock = xorBlock bs,
       cipherDecryptBlock = xorBlock bs \<rparr>"

text \<open>The context that \<^verbatim>\<open>NewCipherContext\<close> returns for that cipher with key \<open>[1]\<close>, ECB
  mode, Zeros padding, no IV and block size 8.\<close>

definition zerosContext :: "bytes CipherContext" where
  "zerosContext =
     \<lparr> ctx_cipher = (xorCipher 8)\<lparr>cipherState := [1]\<rparr>, ctx_key = [1],
       ctx_mode = CipherModeECB, ctx_paddingMode = PaddingModeZeros, ctx_iv = [],
       ctx_blockSize = 8, ctx_parallel = False \<rparr>"

text \<open>The context that \<^verbatim>\<open>NewCipherContext\<close> returns for that cipher with key \<open>[1]\<close>, CBC
  mode, PKCS7 padding, the IV 1, 2, ..., 8 and block size 8.\<close>

definition cbcContext :: "bytes CipherContext" where
  "cbcContext =
     \<lparr> ctx_cipher = (xorCipher 8)\<lparr>cipherState := [1]\<rparr>, ctx_key = [1],
       ctx_mode = CipherModeCBC, ctx_paddingMode = PaddingModePKCS7,
       ctx_iv = [1, 2, 3, 4, 5, 6, 7, 8], ctx_blockSize = 8, ctx_parallel = False \<rparr>"

section \<open>GF(2^8): evaluation rules and algebra of the multiplication loop\<close>

declare InverseSearch.simps [simp del]
declare columnsLoop.simps [simp del]
declare roundKeysLoop.simps [simp del]
declare encryptRounds.simps [simp del]

lemma and_0x80: "((a::byte) AND 0x80 \<noteq> 0) = bit a 7"
  using and_exp_eq_0_iff_not_bit [of a 7] by simp

lemma and_1: "((b::byte) AND 1 \<noteq> 0) = bit b 0"
  using and_exp_eq_0_iff_not_bit [of b 0] by simp

lemma MultiplyLoop_Suc:
  "MultiplyLoop (Suc n) a b m r =
     MultiplyLoop n (if bit a 7 then push_bit 1 a XOR m else push_bit 1 a) (drop_bit 1 b) m
       (if bit b 0 then r XOR a else r)"
  by (simp add: and_0x80 and_1 Let_def)

lemma MultiplyLoop_numeral:
  "MultiplyLoop (numeral k) a b m r =
     MultiplyLoop (pred_numeral k) (if bit a 7 then push_bit 1 a XOR m else push_bit 1 a) (drop_bit 1 b) m
       (if bit b 0 then r XOR a else r)"
  by (simp only: numeral_eq_Suc MultiplyLoop_Suc)

lemmas gf_eval = MultiplyLoop_numeral MultiplyLoop_Suc

lemma MultiplyLoop_xor_left:
  "MultiplyLoop n (a XOR a') b m (r XOR r') = MultiplyLoop n a b m r XOR MultiplyLoop n a' b m r'"
proof (induction n arbitrary: a a' b r r')
  case 0
  show ?case by simp
next
  case (Suc n)
  have r: "(if bit b 0 then (r XOR r') XOR (a XOR a') else r XOR r')
         = (if bit b 0 then r XOR a else r) XOR (if bit b 0 then r' XOR a' else r')"
    by (simp add: ac_simps)
  have a: "(if bit (a XOR a') 7 then push_bit 1 (a XOR a') XOR m else push_bit 1 (a XOR a'))
         = (if bit a 7 then push_bit 1 a XOR m else push_bit 1 a)
           XOR (if bit a' 7 then push_bit 1 a' XOR m else push_bit 1 a')"
    by (simp add: bit_xor_iff ac_simps)
  show ?case
    unfolding MultiplyLoop_Suc r a by (rule Suc.IH)
qed

lemma MultiplyLoop_xor_right:
  "MultiplyLoop n a (b XOR b') m (r XOR r') = MultiplyLoop n a b m r XOR MultiplyLoop n a b' m r'"
proof (induction n arbitrary: a b b' r r')
  case 0
  show ?case by simp
next
  case (Suc n)
  have r: "(if bit (b XOR b') 0 then (r XOR r') XOR a else r XOR r')
         = (if bit b 0 then r XOR a else r) XOR (if bit b' 0 then r' XOR a else r')"
    by (simp add: bit_xor_iff ac_simps del: bit_0)
  show ?case
    unfolding MultiplyLoop_Suc r drop_bit_xor by (rule Suc.IH)
qed

lemma gfmul_xor_left: "gfmul m (a XOR a') b = gfmul m a b XOR gfmul m a' b"
  using MultiplyLoop_xor_left [of 8 a a' b m 0 0] by (simp add: gfmul_def)

lemma gfmul_xor_right: "gfmul m a (b XOR b') = gfmul m a b XOR gfmul m a b'"
  using MultiplyLoop_xor_right [of 8 a b b' m 0 0] by (simp add: gfmul_def)

lemma gfmul_zero_left: "gfmul m 0 b = 0"
  using gfmul_xor_left [of m 0 0 b] by simp

lemma gfmul_zero_right: "gfmul m a 0 = 0"
  using gfmul_xor_right [of m a 0 0] by simp

text \<open>Every byte is the XOR of the powers of two at its set bits, which gives an
  induction principle for properties that XOR preserves.\<close>

lemma byte_bits: "(a::byte) =
  (a AND 2 ^ 0) XOR (a AND 2 ^ 1) XOR (a AND 2 ^ 2) XOR (a AND 2 ^ 3) XOR
  (a AND 2 ^ 4) XOR (a AND 2 ^ 5) XOR (a AND 2 ^ 6) XOR (a AND 2 ^ 7)"
proof (rule bit_word_eqI)
  fix n assume "n < LENGTH(8)"
  then have n: "n \<in> {0, 1, 2, 3, 4, 5, 6, 7}" by auto
  show "bit a n = bit ((a AND 2 ^ 0) XOR (a AND 2 ^ 1) XOR (a AND 2 ^ 2) XOR (a AND 2 ^ 3) XOR
      (a AND 2 ^ 4) XOR (a AND 2 ^ 5) XOR (a AND 2 ^ 6) XOR (a AND 2 ^ 7)) n"
    unfolding bit_xor_iff bit_and_iff bit_exp_iff using n
    by (elim insertE emptyE) simp_all
qed

lemma and_exp_cases: "(a::byte) AND 2 ^ k = (if bit a k then 2 ^ k else 0)"
  by (rule bit_word_eqI) (auto simp add: bit_and_iff bit_exp_iff)

lemma byte_xor_induct [case_names zero xor exp]:
  assumes z: "Q 0"
    and x: "\<And>x y. Q x \<Longrightarrow> Q y \<Longrightarrow> Q (x XOR y)"
    and p: "\<And>k. k < 8 \<Longrightarrow> Q (2 ^ k)"
  shows "Q (a::byte)"
proof -
  have q: "Q (a AND 2 ^ k)" if "k < 8" for k
    using z p [OF that] by (simp add: and_exp_cases)
  have "Q ((a AND 2 ^ 0) XOR (a AND 2 ^ 1) XOR (a AND 2 ^ 2) XOR (a AND 2 ^ 3) XOR
  (a AND 2 ^ 4) XOR (a AND 2 ^ 5) XOR (a AND 2 ^ 6) XOR (a AND 2 ^ 7))"
    by (intro x q) simp_all
  then show ?thesis by (subst byte_bits)
qed

lemma byte_xor_induct_basis [case_names zero xor b0 b1 b2 b3 b4 b5 b6 b7]:
  assumes "Q 0"
    and "\<And>x y. Q x \<Longrightarrow> Q y \<Longrightarrow> Q (x XOR y)"
    and "Q 1" "Q 2" "Q 4" "Q 8" "Q 16" "Q 32" "Q 64" "Q 128"
  shows "Q (a::byte)"
proof (induction a rule: byte_xor_induct)
  case zero
  show ?case by fact
next
  case (xor x y)
  then show ?case by (rule assms(2))
next
  case (exp k)
  then have "k \<in> {0, 1, 2, 3, 4, 5, 6, 7}" by auto
  then show ?case using assms(3-) by (elim insertE emptyE) simp_all
qed

lemma gfmul_basis_commute:
  assumes "e = 1 \<or> e = 2 \<or> e = 4 \<or> e = 8 \<or> e = 16 \<or> e = 32 \<or> e = 64 \<or> e = 128"
  shows "gfmul 0x1B e b = gfmul 0x1B b e"
proof (induction b rule: byte_xor_induct_basis)
  case zero
  show ?case by (simp add: gfmul_zero_left gfmul_zero_right)
next
  case (xor x y)
  then show ?case by (simp add: gfmul_xor_left gfmul_xor_right)
next
  case b0
  show ?case using assms by (elim disjE) (simp_all add: gfmul_def gf_eval del: MultiplyLoop.simps(2))
next
  case b1
  show ?case using assms by (elim disjE) (simp_all add: gfmul_def gf_eval del: MultiplyLoop.simps(2))
next
  case b2
  show ?case using assms by (elim disjE) (simp_all add: gfmul_def gf_eval del: MultiplyLoop.simps(2))
next
  case b3
  show ?case using assms by (elim disjE) (simp_all add: gfmul_def gf_eval del: MultiplyLoop.simps(2))
next
  case b4
  show ?case using assms by (elim disjE) (simp_all add: gfmul_def gf_eval del: MultiplyLoop.simps(2))
next
  case b5
  show ?case using assms by (elim disjE) (simp_all add: gfmul_def gf_eval del: MultiplyLoop.simps(2))
next
  case b6
  show ?case using assms by (elim disjE) (simp_all add: gfmul_def gf_eval del: MultiplyLoop.simps(2))
next
  case b7
  show ?case using assms by (elim disjE) (simp_all add: gfmul_def gf_eval del: MultiplyLoop.simps(2))
qed

lemma gfmul_commute: "gfmul 0x1B a b = gfmul 0x1B b a"
proof (induction a rule: byte_xor_induct_basis)
  case zero
  show ?case by (simp add: gfmul_zero_left gfmul_zero_right)
next
  case (xor x y)
  then show ?case by (simp add: gfmul_xor_left gfmul_xor_right)
qed (rule gfmul_basis_commute, simp)+

text \<open>The search of \<open>Inverse\<close> returns the first candidate whose product is 1, so it
  succeeds as soon as some candidate at or after its start has product 1.\<close>

lemma InverseSearch_finds:
  assumes "Multiply a (word_of_nat n) m = Inr 1" and "i \<le> n" and "n < 256"
  shows "\<exists>t. InverseSearch i a m = Inr t \<and> Multiply a t m = Inr 1"
  using assms
proof (induction i a m rule: InverseSearch.induct)
  case (1 i a modulus)
  show ?case
  proof (cases "Multiply a (word_of_nat i) modulus = Inr 1")
    case True
    with 1 show ?thesis by (subst InverseSearch.simps) (simp add: Let_def)
  next
    case False
    with 1 have "i \<noteq> n" by auto
    with 1 have lt: "i < 256" "i + 1 \<le> n" by auto
    have p: "(case Multiply a (word_of_nat i) modulus of Inl e \<Rightarrow> 0 | Inr p \<Rightarrow> p) \<noteq> 1"
      using False by (simp add: Multiply_def)
    from 1(1) [OF lt(1) refl refl p 1(2) lt(2) 1(4)]
    show ?thesis using lt(1) p by (subst InverseSearch.simps) (simp add: Let_def)
  qed
qed

lemma inverse_pairs_products_0:
  "list_all (\<lambda>(a, t). MultiplyLoop 8 a t 0x1B 0 = 1)
     ([(1, 1), (2, 141), (3, 246), (4, 203), (5, 82), (6, 123), (7, 209), (8, 232),
      (9, 79), (10, 41), (11, 192), (12, 176), (13, 225), (14, 229), (15, 199), (16, 116),
      (17, 180), (18, 170), (19, 75), (20, 153), (21, 43), (22, 96), (23, 95), (24, 88),
      (25, 63), (26, 253), (27, 204), (28, 255), (29, 64), (30, 238), (31, 178), (32, 58)] :: (byte \<times> byte) list)"
  by (simp add: gf_eval del: MultiplyLoop.simps(2))

lemma inverse_pairs_products_1:
  "list_all (\<lambda>(a, t). MultiplyLoop 8 a t 0x1B 0 = 1)
     ([(33, 110), (34, 90), (35, 241), (36, 85), (37, 77), (38, 168), (39, 201), (40, 193),
      (41, 10), (42, 152), (43, 21), (44, 48), (45, 68), (46, 162), (47, 194), (48, 44),
      (49, 69), (50, 146), (51, 108), (52, 243), (53, 57), (54, 102), (55, 66), (56, 242),
      (57, 53), (58, 32), (59, 111), (60, 119), (61, 187), (62, 89), (63, 25), (64, 29)] :: (byte \<times> byte) list)"
  by (simp add: gf_eval del: MultiplyLoop.simps(2))

lemma inverse_pairs_products_2:
  "list_all (\<lambda>(a, t). MultiplyLoop 8 a t 0x1B 0 = 1)
     ([(65, 254), (66, 55), (67, 103), (68, 45), (69, 49), (70, 245), (71, 105), (72, 167),
      (73, 100), (74, 171), (75, 19), (76, 84), (77, 37), (78, 233), (79, 9), (80, 237),
      (81, 92), (82, 5), (83, 202), (84, 76), (85, 36), (86, 135), (87, 191), (88, 24),
      (89, 62), (90, 34), (91, 240), (92, 81), (93, 236), (94, 97), (95, 23), (96, 22)] :: (byte \<times> byte) list)"
  by (simp add: gf_eval del: MultiplyLoop.simps(2))

lemma inverse_pairs_products_3:
  "list_all (\<lambda>(a, t). MultiplyLoop 8 a t 0x1B 0 = 1)
     ([(97, 94), (98, 175), (99, 211), (100, 73), (101, 166), (102, 54), (103, 67), (104, 244),
      (105, 71), (106, 145), (107, 223), (108, 51), (109, 147), (110, 33), (111, 59), (112, 121),
      (113, 183), (114, 151), (115, 133), (116, 16), (117, 181), (118, 186), (119, 60), (120, 182),
      (121, 112), (122, 208), (123, 6), (124, 161), (125, 250), (126, 129), (127, 130), (128, 131)] :: (byte \<times> byte) list)"
  by (simp add: gf_eval del: MultiplyLoop.simps(2))

lemma inverse_pairs_products_4:
  "list_all (\<lambda>(a, t). MultiplyLoop 8 a t 0x1B 0 = 1)
     ([(129, 126), (130, 127), (131, 128), (132, 150), (133, 115), (134, 190), (135, 86), (136, 155),
      (137, 158), (138, 149), (139, 217), (140, 247), (141, 2), (142, 185), (143, 164), (144, 222),
      (145, 106), (146, 50), (147, 109), (148, 216), (149, 138), (150, 132), (151, 114), (152, 42),
      (153, 20), (154, 159), (155, 136), (156, 249), (157, 220), (158, 137), (159, 154), (160, 251)] :: (byte \<times> byte) list)"
  by (simp add: gf_eval del: MultiplyLoop.simps(2))

lemma inverse_pairs_products_5:
  "list_all (\<lambda>(a, t). MultiplyLoop 8 a t 0x1B 0 = 1)
     ([(161, 124), (162, 46), (163, 195), (164, 143), (165, 184), (166, 101), (167, 72), (168, 38),
      (169, 200), (170, 18), (171, 74), (172, 206), (173, 231), (174, 210), (175, 98), (176, 12),
      (177, 224), (178, 31), (179, 239), (180, 17), (181, 117), (182, 120), (183, 113), (184, 165),
      (185, 142), (186, 118), (187, 61), (188, 189), (189, 188), (190, 134), (191, 87), (192, 11)] :: (byte \<times> byte) list)"
  by (simp add: gf_eval del: MultiplyLoop.simps(2))

lemma inverse_pairs_products_6:
  "list_all (\<lambda>(a, t). MultiplyLoop 8 a t 0x1B 0 = 1)
     ([(193, 40), (194, 47), (195, 163), (196, 218), (197, 212), (198, 228), (199, 15), (200, 169),
      (201, 39), (202, 83), (203, 4), (204, 27), (205, 252), (206, 172), (207, 230), (208, 122),
      (209, 7), (210, 174), (211, 99), (212, 197), (213, 219), (214, 226), (215, 234), (216, 148),
      (217, 139), (218, 196), (219, 213), (220, 157), (221, 248), (222, 144), (223, 107), (224, 177)] :: (byte \<times> byte) list)"
  by (simp add: gf_eval del: MultiplyLoop.simps(2))

lemma inverse_pairs_products_7:
  "list_all (\<lambda>(a, t). MultiplyLoop 8 a t 0x1B 0 = 1)
     ([(225, 13), (226, 214), (227, 235), (228, 198), (229, 14), (230, 207), (231, 173), (232, 8),
      (233, 78), (234, 215), (235, 227), (236, 93), (237, 80), (238, 30), (239, 179), (240, 91),
      (241, 35), (242, 56), (243, 52), (244, 104), (245, 70), (246, 3), (247, 140), (248, 221),
      (249, 156), (250, 125), (251, 160), (252, 205), (253, 26), (254, 65), (255, 28)] :: (byte \<times> byte) list)"
  by (simp add: gf_eval del: MultiplyLoop.simps(2))

lemma inverse_pairs_products:
  "list_all (\<lambda>(a, t). MultiplyLoop 8 a t 0x1B 0 = 1) inverse_pairs"
  unfolding inverse_pairs_def
  using inverse_pairs_products_0 inverse_pairs_products_1 inverse_pairs_products_2 inverse_pairs_products_3 inverse_pairs_products_4 inverse_pairs_products_5 inverse_pairs_products_6 inverse_pairs_products_7
  by simp

lemma inverse_pairs_fst: "map fst inverse_pairs = map word_of_nat [1..<256]"
  unfolding inverse_pairs_def
  by (simp add: upt_rec)

lemma inverse_exists:
  assumes "a \<noteq> (0::byte)"
  shows "\<exists>n. 1 \<le> n \<and> n < 256 \<and> gfmul 0x1B a (word_of_nat n) = 1"
proof -
  have u: "1 \<le> unat a" "unat a < 256"
    using assms unsigned_less [of a, where 'a = nat] by (simp_all add: unat_gt_0 Suc_le_eq)
  have "a \<in> word_of_nat ` {1..<256}"
    by (rule image_eqI [where x = "unat a"]) (use u in simp_all)
  then have "a \<in> set (map word_of_nat [1..<256])"
    by simp
  then have "a \<in> set (map fst inverse_pairs)"
    by (simp only: inverse_pairs_fst)
  then have "a \<in> fst ` set inverse_pairs"
    by simp
  then obtain t where t: "(a, t) \<in> set inverse_pairs" by auto
  with inverse_pairs_products have p: "gfmul 0x1B a t = 1"
    by (auto simp: list_all_iff gfmul_def)
  have "t \<noteq> 0" using p by (auto simp: gfmul_zero_right)
  then have "1 \<le> unat t" "unat t < 256"
    using unsigned_less [of t, where 'a = nat] by (simp_all add: unat_gt_0 Suc_le_eq)
  moreover have "gfmul 0x1B a (word_of_nat (unat t)) = 1" using p by simp
  ultimately show ?thesis by blast
qed

text \<open>
  Claim C8.  Under the standard polynomial 0x1B: 0x57 XOR 0x83 is 0xD4, the product of
  0x57 and 0x83 is 0xC1, and for every non-zero byte \<open>a\<close> the call \<open>Inverse a 0x1B\<close>
  succeeds and the byte it returns, multiplied by \<open>a\<close> (in either order), gives 1.
\<close>

theorem gf28_identities:
  "Add 0x57 0x83 = 0xD4 \<and>
   Multiply 0x57 0x83 0x1B = Inr 0xC1 \<and>
   (\<forall>a. a \<noteq> 0 \<longrightarrow>
      (\<exists>t. Inverse a 0x1B = Inr t \<and> Multiply t a 0x1B = Inr 1 \<and> Multiply a t 0x1B = Inr 1))"
proof (intro conjI allI impI)
  show "Add 0x57 0x83 = 0xD4" by (simp add: Add_def)
  show "Multiply 0x57 0x83 0x1B = Inr 0xC1"
    by (simp add: Multiply_def gfmul_def gf_eval del: MultiplyLoop.simps(2))
next
  fix a :: byte
  assume "a \<noteq> 0"
  from inverse_exists [OF this] obtain n
    where n: "1 \<le> n" "n < 256" "Multiply a (word_of_nat n) 0x1B = Inr 1"
    by (auto simp: Multiply_def)
  from InverseSearch_finds [OF n(3) n(1) n(2)] obtain t
    where t: "InverseSearch 1 a 0x1B = Inr t" "Multiply a t 0x1B = Inr 1" by blast
  have "Multiply t a 0x1B = Inr 1"
    using t(2) by (simp add: Multiply_def gfmul_commute [of t a])
  with t \<open>a \<noteq> 0\<close>
  show "\<exists>t. Inverse a 0x1B = Inr t \<and> Multiply t a 0x1B = Inr 1 \<and> Multiply a t 0x1B = Inr 1"
    by (auto simp: Inverse_def)
qed

theorem gf28_identities_witness:
  "(0x57 :: byte) \<noteq> 0 \<and>
   (\<exists>t. Inverse 0x57 0x1B = Inr t \<and> Multiply t 0x57 0x1B = Inr 1 \<and> Multiply 0x57 t 0x1B = Inr 1)"
  using gf28_identities by simp


section \<open>Rijndael: ShiftRows and MixColumns\<close>

lemma MultiplySimple_gfmul: "MultiplySimple = gfmul 0x1B"
  by (intro ext) (simp add: MultiplySimple_def gfmul_def)

text \<open>
  Claim C7.  \<open>mixColumns\<close> and \<open>invMixColumns\<close> multiply under the fixed polynomial 0x1B:
  for every cipher object, whatever its configured modulus, and every state they return
  what the same column loop returns when its products are taken by \<open>Multiply\<close> under
  0x1B, and changing the configured modulus does not change their result.
\<close>

theorem mixColumns_fixed_modulus:
  "mixColumns rc state = mixColumnsUnder 0x1B (rc_blockSize rc) state \<and>
   invMixColumns rc state = invMixColumnsUnder 0x1B (rc_blockSize rc) state \<and>
   mixColumns (rc\<lparr>rc_modulus := m\<rparr>) state = mixColumns rc state \<and>
   invMixColumns (rc\<lparr>rc_modulus := m\<rparr>) state = invMixColumns rc state"
  by (simp add: mixColumns_def invMixColumns_def mixColumnsUnder_def invMixColumnsUnder_def
      MultiplySimple_gfmul)

text \<open>The reduction polynomial does matter to the product itself: 2 times 0x80 is the
  polynomial.\<close>

lemma gfmul_depends_on_modulus: "gfmul 0x1D 0x02 0x80 \<noteq> gfmul 0x1B 0x02 0x80"
  by (simp add: gfmul_def gf_eval del: MultiplyLoop.simps(2))

text \<open>
  Claim C5 as stated fails.  For the block sizes 24 and 32 the row shift is not applied to
  the first 16 bytes: \<open>shiftRows\<close> returns the state as it is.  The cipher object is the
  one \<open>NewRijndaelCipher 24 24 0x1B\<close> returns and the state holds the bytes 0 to 23.
\<close>

theorem shiftRows_wide_counterexample:
  "NewRijndaelCipher 24 24 0x1B = Inr rijndael_24_24 \<and>
   shiftRows rijndael_24_24 [0, 1, 2, 3, 4, 5, 6, 7, 8, 9, 10, 11, 12, 13, 14, 15,
                             16, 17, 18, 19, 20, 21, 22, 23]
   \<noteq> Inr (shiftRows16 (take 16 [0, 1, 2, 3, 4, 5, 6, 7, 8, 9, 10, 11, 12, 13, 14, 15,
                                   16, 17, 18, 19, 20, 21, 22, 23])
           @ drop 16 [0, 1, 2, 3, 4, 5, 6, 7, 8, 9, 10, 11, 12, 13, 14, 15,
                      16, 17, 18, 19, 20, 21, 22, 23])"
  by (simp add: NewRijndaelCipher_def rijndael_24_24_def shiftRows_def initSBoxes_def Let_def
      shiftRows16_def)

text \<open>
  Claim C5, amended.  For the block sizes 24 and 32, \<open>shiftRows\<close> and \<open>invShiftRows\<close>
  both leave the whole state unchanged (the row shift is applied only when the block
  size is 16), so on those states \<open>invShiftRows\<close> undoes \<open>shiftRows\<close>.
\<close>

theorem shiftRows_wide_identity:
  assumes "rc_blockSize rc = 24 \<or> rc_blockSize rc = 32"
  shows "shiftRows rc state = Inr state \<and> invShiftRows rc state = Inr state"
  using assms by (auto simp: shiftRows_def invShiftRows_def)

theorem shiftRows_wide_identity_witness:
  "(rc_blockSize rijndael_24_24 = 24 \<or> rc_blockSize rijndael_24_24 = 32) \<and>
   shiftRows rijndael_24_24 [0, 1, 2, 3, 4, 5, 6, 7, 8, 9, 10, 11, 12, 13, 14, 15,
                             16, 17, 18, 19, 20, 21, 22, 23]
     = Inr [0, 1, 2, 3, 4, 5, 6, 7, 8, 9, 10, 11, 12, 13, 14, 15,
            16, 17, 18, 19, 20, 21, 22, 23] \<and>
   invShiftRows rijndael_24_24 [0, 1, 2, 3, 4, 5, 6, 7, 8, 9, 10, 11, 12, 13, 14, 15,
                                16, 17, 18, 19, 20, 21, 22, 23]
     = Inr [0, 1, 2, 3, 4, 5, 6, 7, 8, 9, 10, 11, 12, 13, 14, 15,
            16, 17, 18, 19, 20, 21, 22, 23]"
proof -
  have b: "rc_blockSize rijndael_24_24 = 24 \<or> rc_blockSize rijndael_24_24 = 32"
    by (simp add: rijndael_24_24_def initSBoxes_def Let_def)
  from shiftRows_wide_identity [OF b] b show ?thesis by simp
qed

text \<open>On a 16-byte block the two row shifts are inverse to each other.\<close>

lemma invShiftRows16_shiftRows16:
  assumes "length state = 16"
  shows "invShiftRows16 (shiftRows16 state) = state"
proof -
  from assms obtain x0 x1 x2 x3 x4 x5 x6 x7 x8 x9 x10 x11 x12 x13 x14 x15
    where "state = [x0, x1, x2, x3, x4, x5, x6, x7, x8, x9, x10, x11, x12, x13, x14, x15]"
    by (auto simp: length_Suc_conv eval_nat_numeral)
  then show ?thesis by (simp add: shiftRows16_def invShiftRows16_def Let_def)
qed


section \<open>Feistel network\<close>

lemma fn_xorBlocks_same_length:
  assumes "length a = length b" and "a \<noteq> []"
  shows "fn_xorBlocks a b = Inr (xorBytes a b)"
  using assms by (auto simp: fn_xorBlocks_def xorBytes_def Let_def)

lemma length_xorBytes [simp]: "length (xorBytes a b) = min (length a) (length b)"
  by (simp add: xorBytes_def)

lemma xorBytes_cancel:
  assumes "length a = length b"
  shows "xorBytes (xorBytes a b) b = a"
  using assms
proof (induction a arbitrary: b)
  case Nil
  then show ?case by (simp add: xorBytes_def)
next
  case (Cons x xs)
  then obtain y ys where "b = y # ys" by (cases b) auto
  with Cons show ?case by (simp add: xorBytes_def xor.assoc)
qed

text \<open>The halves keep their length through the rounds when the round function returns
  a half block.\<close>

lemma feistelLR_lengths:
  assumes "\<forall>r b. r < n \<longrightarrow> length b = h \<longrightarrow> length (F b (K ! r)) = h"
    and "length L0 = h" "length R0 = h" and "r \<le> n"
  shows "length (fst (feistelLR F K r (L0, R0))) = h \<and> length (snd (feistelLR F K r (L0, R0))) = h"
  using assms by (induction r) (auto simp: case_prod_beta Let_def)

lemma encryptRounds_feistelLR:
  assumes F: "\<forall>r b. r < fn_roundsCount fn \<longrightarrow> length b = h \<longrightarrow>
                fn_roundFunction fn b (fn_roundKeys fn ! r) = Inr (F b (fn_roundKeys fn ! r)) \<and>
                length (F b (fn_roundKeys fn ! r)) = h"
    and h: "0 < h" "length L0 = h" "length R0 = h"
    and n: "fn_roundsCount fn \<le> length (fn_roundKeys fn)"
    and r: "r \<le> fn_roundsCount fn"
    and st: "(L, R) = feistelLR F (fn_roundKeys fn) r (L0, R0)"
  shows "encryptRounds fn r L R = Inr (feistelLR F (fn_roundKeys fn) (fn_roundsCount fn) (L0, R0))"
  using r st
proof (induction "fn_roundsCount fn - r" arbitrary: r L R)
  case 0
  then have "r = fn_roundsCount fn" by simp
  with 0 show ?case by (subst encryptRounds.simps) simp
next
  case (Suc d)
  then have lt: "r < fn_roundsCount fn" by simp
  have Fl: "\<forall>r b. r < fn_roundsCount fn \<longrightarrow> length b = h \<longrightarrow> length (F b (fn_roundKeys fn ! r)) = h"
    using F by blast
  have len: "length L = h" "length R = h"
    using feistelLR_lengths [OF Fl h(2,3) Suc.prems(1)] Suc.prems(2) [symmetric]
    by auto
  let ?k = "fn_roundKeys fn ! r"
  have rf: "fn_roundFunction fn R ?k = Inr (F R ?k)" and lf: "length (F R ?k) = h"
    using F lt len(2) by auto
  have x: "fn_xorBlocks L (F R ?k) = Inr (xorBytes L (F R ?k))"
    using len lf h by (intro fn_xorBlocks_same_length) auto
  have nxt: "(R, xorBytes L (F R ?k)) = feistelLR F (fn_roundKeys fn) (Suc r) (L0, R0)"
    using Suc.prems(2) [symmetric] by (simp add: Let_def)
  have d: "d = fn_roundsCount fn - Suc r" using Suc.hyps(2) by simp
  have "encryptRounds fn (Suc r) R (xorBytes L (F R ?k))
          = Inr (feistelLR F (fn_roundKeys fn) (fn_roundsCount fn) (L0, R0))"
    using Suc.hyps(1) [OF d _ nxt] lt by simp
  then show ?case
    using lt n rf x by (subst encryptRounds.simps) simp
qed

lemma feistelInv_lengths:
  assumes "\<forall>r b. r < n \<longrightarrow> length b = h \<longrightarrow> length (F b (K ! r)) = h"
    and "length Ln = h" "length Rn = h" and "j \<le> n"
  shows "length (fst (feistelInv F K n j (Ln, Rn))) = h \<and> length (snd (feistelInv F K n j (Ln, Rn))) = h"
  using assms by (induction j) (auto simp: case_prod_beta Let_def)

lemma decryptRounds_feistelInv:
  assumes F: "\<forall>r b. r < n \<longrightarrow> length b = h \<longrightarrow>
                fn_roundFunction fn b (fn_roundKeys fn ! r) = Inr (F b (fn_roundKeys fn ! r)) \<and>
                length (F b (fn_roundKeys fn ! r)) = h"
    and h: "0 < h" "length Ln = h" "length Rn = h"
    and n: "n \<le> length (fn_roundKeys fn)"
    and j: "j \<le> n"
    and st: "(L, R) = feistelInv F (fn_roundKeys fn) n (n - j) (Ln, Rn)"
  shows "decryptRounds fn j L R = Inr (feistelInv F (fn_roundKeys fn) n n (Ln, Rn))"
  using j st
proof (induction j arbitrary: L R)
  case 0
  then show ?case by simp
next
  case (Suc j)
  have Fl: "\<forall>r b. r < n \<longrightarrow> length b = h \<longrightarrow> length (F b (fn_roundKeys fn ! r)) = h"
    using F by blast
  have "n - Suc j \<le> n" by simp
  from feistelInv_lengths [OF Fl h(2,3) this]
  have len: "length L = h" "length R = h"
    using Suc.prems(2) [symmetric] by auto
  let ?k = "fn_roundKeys fn ! j"
  have rf: "fn_roundFunction fn L ?k = Inr (F L ?k)" and lf: "length (F L ?k) = h"
    using F len(1) Suc.prems(1) by auto
  have x: "fn_xorBlocks R (F L ?k) = Inr (xorBytes R (F L ?k))"
    using len lf h by (intro fn_xorBlocks_same_length) auto
  have e: "n - j = Suc (n - Suc j)" "n - Suc (n - Suc j) = j"
    using Suc.prems(1) by auto
  have nxt: "(xorBytes R (F L ?k), L) = feistelInv F (fn_roundKeys fn) n (n - j) (Ln, Rn)"
    using Suc.prems(2) [symmetric] by (simp add: e Let_def)
  have "decryptRounds fn j (xorBytes R (F L ?k)) L
          = Inr (feistelInv F (fn_roundKeys fn) n n (Ln, Rn))"
    using Suc.IH [OF _ nxt] Suc.prems(1) by simp
  then show ?case
    using rf x n Suc.prems(1) by simp
qed

lemma feistelInv_feistelLR:
  assumes F: "\<forall>r b. r < n \<longrightarrow> length b = h \<longrightarrow> length (F b (K ! r)) = h"
    and h: "length L0 = h" "length R0 = h"
    and j: "j \<le> n"
  shows "feistelInv F K n j (feistelLR F K n (L0, R0)) = feistelLR F K (n - j) (L0, R0)"
  using j
proof (induction j)
  case 0
  then show ?case by simp
next
  case (Suc j)
  obtain L R where lr: "feistelLR F K (n - Suc j) (L0, R0) = (L, R)" by force
  have "n - Suc j \<le> n" by simp
  from feistelLR_lengths [OF F h this]
  have len: "length L = h" "length R = h"
    using lr by auto
  have e: "n - j = Suc (n - Suc j)" using Suc.prems by simp
  have kl: "n - Suc j < n" using Suc.prems by simp
  have "feistelLR F K (n - j) (L0, R0) = (R, xorBytes L (F R (K ! (n - Suc j))))"
    by (simp add: e lr Let_def)
  with Suc have "feistelInv F K n j (feistelLR F K n (L0, R0)) = (R, xorBytes L (F R (K ! (n - Suc j))))"
    by simp
  then show ?case
    using len F kl by (simp add: Let_def lr xorBytes_cancel)
qed

lemma splitBlock_even:
  assumes "even (length x)" "0 < length x"
  shows "splitBlock x = Inr (take (length x div 2) x, drop (length x div 2) x)"
  using assms by (simp add: splitBlock_def Let_def)

text \<open>
  Claim C3.  For a network with an even, non-zero block size, a stored round-key list
  that is non-empty and has at least \<open>roundsCount\<close> entries, and a round function that
  returns a half block \<open>F b k\<close> for every half block \<open>b\<close> and each of the first
  \<open>roundsCount\<close> stored round keys \<open>k\<close>: \<open>EncryptBlock\<close> on a block of
  \<open>blockSize\<close> bytes returns \<open>L n @ R n\<close> of the recurrence
  \<open>L (r+1) = R r\<close>, \<open>R (r+1) = L r \<oplus> F (R r) (K r)\<close> started at the two halves of the
  block, with no swap after the last round; \<open>DecryptBlock\<close> returns the two halves
  obtained by running \<open>R r = L (r+1)\<close>, \<open>L r = R (r+1) \<oplus> F (L (r+1)) (K r)\<close> from
  \<open>r = n - 1\<close> down to 0; and \<open>DecryptBlock\<close> of the encrypted block is the block.
\<close>

theorem feistel_rounds_roundtrip:
  assumes blk: "even (fn_blockSize fn)" "0 < fn_blockSize fn" "length x = fn_blockSize fn"
    and keys: "fn_roundKeys fn \<noteq> []" "fn_roundsCount fn \<le> length (fn_roundKeys fn)"
    and F: "\<forall>r b. r < fn_roundsCount fn \<longrightarrow> length b = fn_blockSize fn div 2 \<longrightarrow>
              fn_roundFunction fn b (fn_roundKeys fn ! r) = Inr (F b (fn_roundKeys fn ! r)) \<and>
              length (F b (fn_roundKeys fn ! r)) = fn_blockSize fn div 2"
  shows "EncryptBlock fn (Some x) =
           Inr (fst (feistelLR F (fn_roundKeys fn) (fn_roundsCount fn)
                      (take (fn_blockSize fn div 2) x, drop (fn_blockSize fn div 2) x))
                @ snd (feistelLR F (fn_roundKeys fn) (fn_roundsCount fn)
                      (take (fn_blockSize fn div 2) x, drop (fn_blockSize fn div 2) x))) \<and>
         DecryptBlock fn (Some x) =
           Inr (fst (feistelInv F (fn_roundKeys fn) (fn_roundsCount fn) (fn_roundsCount fn)
                      (take (fn_blockSize fn div 2) x, drop (fn_blockSize fn div 2) x))
                @ snd (feistelInv F (fn_roundKeys fn) (fn_roundsCount fn) (fn_roundsCount fn)
                      (take (fn_blockSize fn div 2) x, drop (fn_blockSize fn div 2) x))) \<and>
         (\<exists>y. EncryptBlock fn (Some x) = Inr y \<and> DecryptBlock fn (Some y) = Inr x)"
proof -
  let ?h = "fn_blockSize fn div 2"
  let ?n = "fn_roundsCount fn"
  let ?K = "fn_roundKeys fn"
  let ?L0 = "take ?h x" and ?R0 = "drop ?h x"
  have h: "0 < ?h" "length ?L0 = ?h" "length ?R0 = ?h"
    using blk by (auto elim!: evenE)
  note F' = F
  have Fl: "\<forall>r b. r < ?n \<longrightarrow> length b = ?h \<longrightarrow> length (F b (?K ! r)) = ?h"
    using F by blast
  have sx: "splitBlock x = Inr (?L0, ?R0)"
    using splitBlock_even [of x] blk by simp
  obtain Ln Rn where lrn: "feistelLR F ?K ?n (?L0, ?R0) = (Ln, Rn)" by force
  have lenn: "length Ln = ?h" "length Rn = ?h"
    using feistelLR_lengths [OF Fl h(2,3) order_refl] lrn by auto
  have er: "encryptRounds fn 0 ?L0 ?R0 = Inr (Ln, Rn)"
    using encryptRounds_feistelLR [OF F' h keys(2), where r = 0 and L = ?L0 and R = ?R0] lrn by simp
  have enc: "EncryptBlock fn (Some x) = Inr (Ln @ Rn)"
    using blk keys sx er by (simp add: combineBlocks_def)
  obtain Ld Rd where lrd: "feistelInv F ?K ?n ?n (?L0, ?R0) = (Ld, Rd)" by force
  have dr: "decryptRounds fn ?n ?L0 ?R0 = Inr (Ld, Rd)"
    using decryptRounds_feistelInv [OF F' h keys(2), where j = ?n and L = ?L0 and R = ?R0] lrd by simp
  have dec: "DecryptBlock fn (Some x) = Inr (Ld @ Rd)"
    using blk keys sx dr by (simp add: combineBlocks_def)
  have leny: "length (Ln @ Rn) = fn_blockSize fn" "even (length (Ln @ Rn))" "0 < length (Ln @ Rn)"
    using lenn blk h by (auto elim!: evenE)
  have sy: "splitBlock (Ln @ Rn) = Inr (Ln, Rn)"
    using splitBlock_even [OF leny(2,3)] lenn by simp
  have inv: "feistelInv F ?K ?n ?n (Ln, Rn) = (?L0, ?R0)"
    using feistelInv_feistelLR [OF Fl h(2,3) order_refl] lrn by simp
  have dr2: "decryptRounds fn ?n Ln Rn = Inr (?L0, ?R0)"
    using decryptRounds_feistelInv [OF F' h(1) lenn keys(2), where j = ?n and L = Ln and R = Rn] inv by simp
  have dec2: "DecryptBlock fn (Some (Ln @ Rn)) = Inr x"
    using leny keys sy dr2 by (simp add: combineBlocks_def)
  show ?thesis
    using enc dec dec2 by (simp add: lrn lrd)
qed

lemma demoRound_length [simp]: "length (demoRound b k) = length b"
  by (simp add: demoRound_def)

theorem feistel_rounds_roundtrip_witness:
  "even (fn_blockSize (fst (SetKey demoNetwork (Some [1, 2])))) \<and>
   length [10, 20, 30, 40 :: byte] = fn_blockSize (fst (SetKey demoNetwork (Some [1, 2]))) \<and>
   fn_roundKeys (fst (SetKey demoNetwork (Some [1, 2]))) = [[1, 2], [2, 1]] \<and>
   EncryptBlock (fst (SetKey demoNetwork (Some [1, 2]))) (Some [10, 20, 30, 40]) = Inr [21, 61, 9, 23] \<and>
   DecryptBlock (fst (SetKey demoNetwork (Some [1, 2]))) (Some [21, 61, 9, 23]) = Inr [10, 20, 30, 40]"
proof -
  define fn where "fn = fst (SetKey demoNetwork (Some [1, 2]))"
  have fn: "fn = demoNetwork\<lparr>fn_currentKey := [1, 2], fn_roundKeys := [[1, 2], [2, 1]]\<rparr>"
    unfolding fn_def by (simp add: demoNetwork_def demoKeySchedule_def Let_def)
  have a: "even (fn_blockSize fn)" "0 < fn_blockSize fn" "length [10, 20, 30, 40 :: byte] = fn_blockSize fn"
    "fn_roundKeys fn \<noteq> []" "fn_roundsCount fn \<le> length (fn_roundKeys fn)"
    unfolding fn by (simp_all add: demoNetwork_def)
  have F: "\<forall>r b. r < fn_roundsCount fn \<longrightarrow> length b = fn_blockSize fn div 2 \<longrightarrow>
              fn_roundFunction fn b (fn_roundKeys fn ! r) = Inr (demoRound b (fn_roundKeys fn ! r)) \<and>
              length (demoRound b (fn_roundKeys fn ! r)) = fn_blockSize fn div 2"
    unfolding fn by (auto simp: demoNetwork_def keyedRoundFunction_def less_Suc_eq numeral_2_eq_2)
  have k: "fn_roundKeys fn = [[1, 2], [2, 1]]" "fn_roundsCount fn = 2" "fn_blockSize fn = 4"
    unfolding fn by (simp_all add: demoNetwork_def)
  have lr: "feistelLR demoRound [[1, 2], [2, 1]] 2 ([10, 20], [30, 40 :: byte]) = ([21, 61], [9, 23])"
    by (simp add: numeral_2_eq_2 Let_def demoRound_def xorBytes_def)
  note rt = feistel_rounds_roundtrip [OF a F, unfolded k]
  have e1: "EncryptBlock fn (Some [10, 20, 30, 40]) = Inr [21, 61, 9, 23]"
    using rt [THEN conjunct1] by (simp add: lr del: EncryptBlock.simps DecryptBlock.simps)
  obtain y where e2: "EncryptBlock fn (Some [10, 20, 30, 40]) = Inr y"
    and d: "DecryptBlock fn (Some y) = Inr [10, 20, 30, 40]"
    using rt [THEN conjunct2, THEN conjunct2] by blast
  from e1 e2 have "y = [21, 61, 9, 23]" by (simp only: sum.inject)
  with d have d': "DecryptBlock fn (Some [21, 61, 9, 23]) = Inr [10, 20, 30, 40]" by (simp only:)
  from a(1) a(3) k(1) e1 d'
  have "even (fn_blockSize fn) \<and>
   length [10, 20, 30, 40 :: byte] = fn_blockSize fn \<and>
   fn_roundKeys fn = [[1, 2], [2, 1]] \<and>
   EncryptBlock fn (Some [10, 20, 30, 40]) = Inr [21, 61, 9, 23] \<and>
   DecryptBlock fn (Some [21, 61, 9, 23]) = Inr [10, 20, 30, 40]"
    by (intro conjI)
  then show ?thesis unfolding fn_def .
qed

lemma fn_xorBlocks_nonempty:
  assumes "a \<noteq> []" "b \<noteq> []"
  shows "\<exists>c. fn_xorBlocks a b = Inr c \<and> c \<noteq> []"
  using assms by (cases a; cases b) (auto simp: fn_xorBlocks_def Let_def)

text \<open>With fewer stored round keys than rounds, the rounds of \<open>EncryptBlock\<close> run until
  the round index reaches the length of the list and then index out of range.\<close>

lemma encryptRounds_short_keys:
  assumes F: "\<forall>b key. b \<noteq> [] \<longrightarrow> (\<exists>out. fn_roundFunction fn b key = Inr out \<and> out \<noteq> [])"
    and short: "length (fn_roundKeys fn) < fn_roundsCount fn"
    and r: "r \<le> length (fn_roundKeys fn)"
    and ne: "L \<noteq> []" "R \<noteq> []"
  shows "encryptRounds fn r L R = Inl (Panic IndexOutOfRange)"
  using r ne
proof (induction "length (fn_roundKeys fn) - r" arbitrary: r L R)
  case 0
  then have "r = length (fn_roundKeys fn)" by simp
  with short show ?case by (subst encryptRounds.simps) simp
next
  case (Suc d)
  then have lt: "r < length (fn_roundKeys fn)" by simp
  from F Suc.prems(3) obtain out
    where out: "fn_roundFunction fn R (fn_roundKeys fn ! r) = Inr out" "out \<noteq> []" by blast
  from fn_xorBlocks_nonempty [OF Suc.prems(2) out(2)] obtain nr
    where nr: "fn_xorBlocks L out = Inr nr" "nr \<noteq> []" by blast
  have d: "d = length (fn_roundKeys fn) - Suc r" using Suc.hyps(2) by simp
  have "encryptRounds fn (Suc r) R nr = Inl (Panic IndexOutOfRange)"
    using Suc.hyps(1) [OF d _ Suc.prems(3) nr(2)] lt by simp
  then show ?case
    using lt short out nr by (subst encryptRounds.simps) simp
qed

text \<open>
  Claim C10.  When the key schedule returns a non-empty list of fewer than \<open>roundsCount\<close>
  round keys, \<open>SetKey\<close> stores the key and that list and returns the
  insufficient-round-keys error.  On the network it leaves, \<open>EncryptBlock\<close> and
  \<open>DecryptBlock\<close> of a block of \<open>blockSize\<close> bytes do not stop at the key-not-set guard:
  they index \<open>roundKeys\<close> out of range (provided the round function, where it is reached,
  returns a non-empty result for a non-empty half block).
\<close>

theorem SetKey_insufficient_keys_then_panic:
  assumes ks: "fn_keySchedule fn k = Inr rks" "rks \<noteq> []" "length rks < fn_roundsCount fn" "k \<noteq> []"
    and blk: "even (fn_blockSize fn)" "0 < fn_blockSize fn" "length x = fn_blockSize fn"
    and F: "\<forall>b key. b \<noteq> [] \<longrightarrow> (\<exists>out. fn_roundFunction fn b key = Inr out \<and> out \<noteq> [])"
  shows "SetKey fn (Some k) =
           (fn\<lparr>fn_currentKey := k, fn_roundKeys := rks\<rparr>,
            Some (InsufficientRoundKeys (length rks) (fn_roundsCount fn))) \<and>
         EncryptBlock (fst (SetKey fn (Some k))) (Some x) = Inl (Panic IndexOutOfRange) \<and>
         DecryptBlock (fst (SetKey fn (Some k))) (Some x) = Inl (Panic IndexOutOfRange)"
proof -
  define fn' where "fn' = fn\<lparr>fn_currentKey := k, fn_roundKeys := rks\<rparr>"
  have sk: "SetKey fn (Some k) = (fn', Some (InsufficientRoundKeys (length rks) (fn_roundsCount fn)))"
    using ks by (simp add: fn'_def Let_def)
  have f: "fn_roundKeys fn' = rks" "fn_roundsCount fn' = fn_roundsCount fn"
    "fn_blockSize fn' = fn_blockSize fn" "fn_roundFunction fn' = fn_roundFunction fn"
    by (simp_all add: fn'_def)
  let ?h = "length x div 2"
  have sx: "splitBlock x = Inr (take ?h x, drop ?h x)"
    using splitBlock_even [of x] blk by simp
  have ne: "take ?h x \<noteq> []" "drop ?h x \<noteq> []"
    using blk by (auto elim!: evenE)
  have F': "\<forall>b key. b \<noteq> [] \<longrightarrow> (\<exists>out. fn_roundFunction fn' b key = Inr out \<and> out \<noteq> [])"
    using F by (simp add: f)
  have short: "length (fn_roundKeys fn') < fn_roundsCount fn'"
    using ks by (simp add: f)
  have er: "encryptRounds fn' 0 (take ?h x) (drop ?h x) = Inl (Panic IndexOutOfRange)"
    by (rule encryptRounds_short_keys [OF F' short _ ne]) simp
  have enc: "EncryptBlock fn' (Some x) = Inl (Panic IndexOutOfRange)"
    using blk ks sx er by (simp add: f)
  obtain m where m: "fn_roundsCount fn' = Suc m" "length (fn_roundKeys fn') \<le> m"
    using short by (cases "fn_roundsCount fn'") auto
  have dr: "decryptRounds fn' (fn_roundsCount fn') (take ?h x) (drop ?h x) = Inl (Panic IndexOutOfRange)"
    using m by simp
  have dec: "DecryptBlock fn' (Some x) = Inl (Panic IndexOutOfRange)"
    using blk ks sx dr by (simp add: f del: decryptRounds.simps)
  show ?thesis
    using enc dec unfolding sk fn'_def by (simp del: EncryptBlock.simps DecryptBlock.simps)
qed

lemma demoRound_nonempty: "b \<noteq> [] \<Longrightarrow> demoRound b k \<noteq> []"
  by (simp add: demoRound_def)

theorem SetKey_insufficient_keys_then_panic_witness:
  "SetKey shortNetwork (Some [1, 2]) =
     (shortNetwork\<lparr>fn_currentKey := [1, 2], fn_roundKeys := [[1, 2]]\<rparr>,
      Some (InsufficientRoundKeys (length [[1, 2 :: byte]]) 2)) \<and>
   EncryptBlock (fst (SetKey shortNetwork (Some [1, 2]))) (Some [10, 20, 30, 40])
     = Inl (Panic IndexOutOfRange) \<and>
   DecryptBlock (fst (SetKey shortNetwork (Some [1, 2]))) (Some [10, 20, 30, 40])
     = Inl (Panic IndexOutOfRange)"
proof -
  have ks: "fn_keySchedule shortNetwork [1, 2] = Inr [[1, 2]]" "[[1, 2 :: byte]] \<noteq> []"
    "length [[1, 2 :: byte]] < fn_roundsCount shortNetwork" "[1, 2 :: byte] \<noteq> []"
    by (simp_all add: shortNetwork_def shortKeySchedule_def)
  have blk: "even (fn_blockSize shortNetwork)" "0 < fn_blockSize shortNetwork"
    "length [10, 20, 30, 40 :: byte] = fn_blockSize shortNetwork"
    by (simp_all add: shortNetwork_def)
  have F: "\<forall>b key. b \<noteq> [] \<longrightarrow> (\<exists>out. fn_roundFunction shortNetwork b key = Inr out \<and> out \<noteq> [])"
    by (simp add: shortNetwork_def demoRoundFunction_def demoRound_nonempty)
  have n: "fn_roundsCount shortNetwork = 2" by (simp add: shortNetwork_def)
  from SetKey_insufficient_keys_then_panic [OF ks blk F]
  show ?thesis unfolding n .
qed


section \<open>DES key schedule\<close>

text \<open>The first iteration of the key schedule for the key 13 34 57 79 9B BC DF F1,
  evaluated.\<close>

lemma des_first_round:
  "PermuteBits [0x13, 0x34, 0x57, 0x79, 0x9B, 0xBC, 0xDF, 0xF1] PC1 False 1
     = Inr [0xF0, 0xCC, 0xAA, 0xF5, 0x56, 0x67, 0x8F] \<and>
   copyBits28 28 0 [0xF0, 0xCC, 0xAA, 0xF5, 0x56, 0x67, 0x8F] 0 (replicate 4 0) 0
     = Inr [0xF0, 0xCC, 0xAA, 0xF0] \<and>
   copyBits28 28 0 [0xF0, 0xCC, 0xAA, 0xF5, 0x56, 0x67, 0x8F] 28 (replicate 4 0) 0
     = Inr [0x55, 0x66, 0x78, 0xF0] \<and>
   SHIFT_SCHEDULE ! 0 = 1 \<and>
   leftShift28 [0xF0, 0xCC, 0xAA, 0xF0] 1 = Inr [0x01, 0x99, 0x55, 0xE0] \<and>
   half28 [0xF0, 0xCC, 0xAA, 0xF0] = 0xF0CCAAF \<and>
   rotl28 0xF0CCAAF 1 = 0xE19955F \<and>
   half28 [0x01, 0x99, 0x55, 0xE0] = 0x019955E \<and>
   roundKeyStep 0 [0xF0, 0xCC, 0xAA, 0xF0] [0x55, 0x66, 0x78, 0xF0]
     = Inr ([0x01, 0x99, 0x55, 0xE0], [0x0A, 0xCC, 0xF1, 0xE0], [0x10, 0x02, 0xEE, 0xDC, 0x70, 0x70])"
  by code_simp

text \<open>The round key of the first iteration is the first element of what
  \<open>GenerateRoundKeys\<close> returns.\<close>

lemma roundKeysLoop_prefix:
  "roundKeysLoop r C D acc = Inr ks \<Longrightarrow> take (length acc) ks = acc"
proof (induction r C D acc rule: roundKeysLoop.induct)
  case (1 round C D roundKeys)
  show ?case
  proof (cases "round < 16")
    case False
    with 1(2) show ?thesis by (subst (asm) roundKeysLoop.simps) simp
  next
    case True
    from 1(2) True obtain C' D' k where
      st: "roundKeyStep round C D = Inr (C', D', k)"
      and rec: "roundKeysLoop (round + 1) C' D' (roundKeys @ [k]) = Inr ks"
      by (subst (asm) roundKeysLoop.simps) (auto split: sum.splits)
    from 1(1) [OF True st refl refl rec]
    have "take (length (roundKeys @ [k])) ks = roundKeys @ [k]" .
    then have "take (length roundKeys) (take (length (roundKeys @ [k])) ks) = take (length roundKeys) (roundKeys @ [k])"
      by simp
    then show ?thesis by (simp add: min_def)
  qed
qed

lemma GenerateRoundKeys_first_key:
  assumes "GenerateRoundKeys [0x13, 0x34, 0x57, 0x79, 0x9B, 0xBC, 0xDF, 0xF1] = Inr ks"
  shows "take 1 ks = [[0x10, 0x02, 0xEE, 0xDC, 0x70, 0x70]]"
proof -
  note e = des_first_round
  have "roundKeysLoop 0 [0xF0, 0xCC, 0xAA, 0xF0] [0x55, 0x66, 0x78, 0xF0] [] = Inr ks"
    using assms e by (simp add: GenerateRoundKeys_def)
  then have "roundKeysLoop 1 [0x01, 0x99, 0x55, 0xE0] [0x0A, 0xCC, 0xF1, 0xE0]
               [[0x10, 0x02, 0xEE, 0xDC, 0x70, 0x70]] = Inr ks"
    using e by (subst (asm) roundKeysLoop.simps) simp
  from roundKeysLoop_prefix [OF this] show ?thesis by simp
qed


text \<open>
  Claim C2 is not what the code does.  The halves C and D are written into their four
  bytes from the most significant bit of byte 0 on, so the 28 bits of a half are the
  high 28 bits of the big-endian word; \<open>leftShift28\<close> masks the word to its low 28 bits
  and rotates those.  For the key 13 34 57 79 9B BC DF F1: PC1 gives F0 CC AA F5 56 67
  8F, the half C is F0 CC AA F0, that is the 28-bit value F0CCAAF, whose rotation by 1
  is E19955F; \<open>leftShift28\<close> returns 01 99 55 E0, which holds 019955E.  The first round
  key of the loop is 10 02 EE DC 70 70, where DES has 1B 02 EF FC 70 72.
\<close>

theorem des_key_schedule_failing_input:
  "PermuteBits [0x13, 0x34, 0x57, 0x79, 0x9B, 0xBC, 0xDF, 0xF1] PC1 False 1
     = Inr [0xF0, 0xCC, 0xAA, 0xF5, 0x56, 0x67, 0x8F] \<and>
   copyBits28 28 0 [0xF0, 0xCC, 0xAA, 0xF5, 0x56, 0x67, 0x8F] 0 (replicate 4 0) 0
     = Inr [0xF0, 0xCC, 0xAA, 0xF0] \<and>
   leftShift28 [0xF0, 0xCC, 0xAA, 0xF0] (SHIFT_SCHEDULE ! 0) = Inr [0x01, 0x99, 0x55, 0xE0] \<and>
   half28 [0x01, 0x99, 0x55, 0xE0] \<noteq> rotl28 (half28 [0xF0, 0xCC, 0xAA, 0xF0]) (SHIFT_SCHEDULE ! 0) \<and>
   roundKeyStep 0 [0xF0, 0xCC, 0xAA, 0xF0] [0x55, 0x66, 0x78, 0xF0]
     = Inr ([0x01, 0x99, 0x55, 0xE0], [0x0A, 0xCC, 0xF1, 0xE0], [0x10, 0x02, 0xEE, 0xDC, 0x70, 0x70]) \<and>
   [0x10, 0x02, 0xEE, 0xDC, 0x70, 0x70] \<noteq> [0x1B, 0x02, 0xEF, 0xFC, 0x70, 0x72 :: byte]"
  using des_first_round by simp


section \<open>Cipher context: construction and padding\<close>




text \<open>For an empty IV in a mode other than ECB and a negative block size, the
  allocation of the IV panics.\<close>

lemma NewCipherContext_negative_blockSize:
  assumes "snd (cipherSetKey c (cipherState c) k) = None" "m \<noteq> CipherModeECB" "blockSize < 0"
  shows "NewCipherContext (Some c) k m p [] blockSize par = Inl (Panic NegativeLength)"
  using assms
  by (auto simp: NewCipherContext_def ctxSetKey_def Let_def split: prod.splits)

text \<open>
  The guard on the last byte comes before the \<^verbatim>\<open>switch\<close> of \<open>removePadding\<close>: data whose
  last byte is 0 is returned as it is, in every padding mode.
\<close>

lemma removePadding_last_zero:
  assumes "data \<noteq> []" "last data = 0"
  shows "removePadding ctx data = Inr data"
  using assms by (simp add: removePadding_def)

text \<open>
  Claim C4 is not what the code does.  For the Zeros scheme with block size 8, the data
  \<open>[1]\<close> is padded with seven zero bytes, and \<open>removePadding\<close> returns the eight bytes: no
  trailing zero is removed.  The context is the one \<open>NewCipherContext\<close> builds for ECB with
  Zeros padding.
\<close>

theorem removePadding_zeros_failing_input:
  "NewCipherContext (Some (xorCipher 8)) [1] CipherModeECB PaddingModeZeros [] 8 False = Inr zerosContext \<and>
   applyPadding zerosContext [] (Some [1]) = Inr ([1, 0, 0, 0, 0, 0, 0, 0], []) \<and>
   removePadding zerosContext [1, 0, 0, 0, 0, 0, 0, 0] = Inr [1, 0, 0, 0, 0, 0, 0, 0]"
proof (intro conjI)
  show "NewCipherContext (Some (xorCipher 8)) [1] CipherModeECB PaddingModeZeros [] 8 False
          = Inr zerosContext"
    by (simp add: NewCipherContext_def ctxSetKey_def xorCipher_def Let_def zerosContext_def)
  have r: "replicate 7 (0 :: byte) = [0, 0, 0, 0, 0, 0, 0]"
    by (simp add: numeral_eq_Suc)
  have n: "nat 8 = 8" "(1 :: int) smod 8 = 1"
    by (simp_all add: smod_int_alt_def)
  show "applyPadding zerosContext [] (Some [1]) = Inr ([1, 0, 0, 0, 0, 0, 0, 0], [])"
    by (simp add: zerosContext_def Let_def r n)
  show "removePadding zerosContext [1, 0, 0, 0, 0, 0, 0, 0] = Inr [1, 0, 0, 0, 0, 0, 0, 0]"
    by (rule removePadding_last_zero) simp_all
qed

text \<open>More generally, Zeros padding is never removed.\<close>

lemma removePadding_zeros_padding:
  assumes "0 < p"
  shows "removePadding ctx (data @ replicate p 0) = Inr (data @ replicate p 0)"
  using assms by (intro removePadding_last_zero) auto

end
